theory Spec2Isabelle
  imports Main
begin

section \<open>Python built-ins used by the sources\<close>

text \<open>
  A string is a \<open>char list\<close>. The type \<open>char\<close> has 256 values, and a character is read
  as the Unicode code point of the same number (the Latin-1 range), so that \<open>CHR 0xA0\<close>
  is the no-break space and \<open>CHR 0xC0\<close> a capital A with a grave accent. On these
  strings \<open>str.strip\<close>, \<open>str.lower\<close> and \<open>int\<close> are modelled as Python defines them;
  strings with a code point from 256 on are outside the type.
\<close>

datatype exn = ValueError | RuntimeError | OSError | DatabaseError | SMTPException

text \<open>
  The characters below 256 for which \<open>str.isspace\<close> holds, which are the ones that
  \<open>str.strip()\<close> removes: tab to carriage return, the separators \<open>0x1C\<close> to \<open>0x1F\<close>,
  the space, next line (\<open>0x85\<close>) and the no-break space (\<open>0xA0\<close>).
\<close>

definition py_whitespace :: "char list" where
  "py_whitespace =
     [CHR 0x09, CHR 0x0A, CHR 0x0B, CHR 0x0C, CHR 0x0D,
      CHR 0x1C, CHR 0x1D, CHR 0x1E, CHR 0x1F, CHR 0x20, CHR 0x85, CHR 0xA0]"

definition py_lstrip :: "char list \<Rightarrow> string \<Rightarrow> string" where
  "py_lstrip cs s = dropWhile (\<lambda>c. c \<in> set cs) s"

definition py_rstrip :: "char list \<Rightarrow> string \<Rightarrow> string" where
  "py_rstrip cs s = rev (dropWhile (\<lambda>c. c \<in> set cs) (rev s))"

definition py_strip :: "string \<Rightarrow> string" where
  "py_strip s = py_rstrip py_whitespace (py_lstrip py_whitespace s)"

text \<open>
  The characters below 256 that \<open>str.lower()\<close> changes: the letters \<open>A\<close> to \<open>Z\<close> and the
  capitals \<open>0xC0\<close> to \<open>0xDE\<close> without the multiplication sign \<open>0xD7\<close>. Each has its
  small letter 32 places further on; every other character, the sharp s \<open>0xDF\<close> and the
  micro sign \<open>0xB5\<close> among them, is left as it is.
\<close>

definition is_upper :: "char \<Rightarrow> bool" where
  "is_upper c =
     (let n = (of_char c :: nat)
      in (65 \<le> n \<and> n \<le> 90) \<or> (192 \<le> n \<and> n \<le> 214) \<or> (216 \<le> n \<and> n \<le> 222))"

definition lower_char :: "char \<Rightarrow> char" where
  "lower_char c = (if is_upper c then char_of (of_char c + (32 :: nat)) else c)"

definition py_lower :: "string \<Rightarrow> string" where
  "py_lower s = map lower_char s"

definition digit_val :: "char \<Rightarrow> int option" where
  "digit_val c = map_of (zip ''0123456789'' [0, 1, 2, 3, 4, 5, 6, 7, 8, 9]) c"

text \<open>
  The digits after the first one: a digit, or one underscore followed by a digit
  (\<open>int("1_000")\<close> is 1000, \<open>int("1__0")\<close> and \<open>int("1_")\<close> raise).
\<close>

fun int_digits :: "int \<Rightarrow> string \<Rightarrow> int option" where
  "int_digits acc [] = Some acc"
| "int_digits acc [c] =
     (case digit_val c of None \<Rightarrow> None | Some v \<Rightarrow> Some (acc * 10 + v))"
| "int_digits acc (c # d # ds) =
     (if c = CHR ''_'' then
        (case digit_val d of None \<Rightarrow> None | Some v \<Rightarrow> int_digits (acc * 10 + v) ds)
      else
        (case digit_val c of None \<Rightarrow> None | Some v \<Rightarrow> int_digits (acc * 10 + v) (d # ds)))"

text \<open>
  \<open>int(s)\<close> for a string: surrounding whitespace, an optional sign, decimal digits.
  \<open>None\<close> is the \<open>ValueError\<close>. The conversion first replaces the white space outside
  ASCII, next line and the no-break space, by spaces; it then skips tab, line feed,
  vertical tab, form feed, carriage return and space only, not the separators \<open>0x1C\<close>
  to \<open>0x1F\<close> that \<open>str.strip\<close> removes. No character from 127 on is a decimal digit.
\<close>

definition int_space :: "char \<Rightarrow> char" where
  "int_space c = (if c = CHR 0x85 \<or> c = CHR 0xA0 then CHR 0x20 else c)"

definition int_whitespace :: "char list" where
  "int_whitespace = [CHR 0x09, CHR 0x0A, CHR 0x0B, CHR 0x0C, CHR 0x0D, CHR 0x20]"

definition py_int :: "string \<Rightarrow> int option" where
  "py_int s =
     (let t = py_rstrip int_whitespace (py_lstrip int_whitespace (map int_space s));
          sign = (if take 1 t = ''-'' then - 1 else 1);
          body = (if take 1 t = ''-'' \<or> take 1 t = ''+'' then drop 1 t else t)
      in case body of
           [] \<Rightarrow> None
         | d # ds \<Rightarrow>
             (case digit_val d of
                None \<Rightarrow> None
              | Some v \<Rightarrow> map_option (\<lambda>n. sign * n) (int_digits v ds)))"

section \<open>orchestrator.py\<close>

subsection \<open>Configuration and environment\<close>

text \<open>
  \<open>MAX_RETRIES\<close> is read once at import; \<open>LOCAL_TEST_MODE\<close> and \<open>TEST_DELAY_MIN\<close> are read
  at the start of \<open>main\<close>, the latter kept as the raw environment string (absent is
  \<open>None\<close>) and converted with \<open>int\<close> only after a stage has finished.
\<close>

record orch_config =
  MAX_RETRIES :: int
  LOCAL_TEST_MODE :: bool
  TEST_DELAY_MIN :: "string option"

definition BACKOFF_SECS :: "int list" where
  "BACKOFF_SECS = [10, 30]"

text \<open>
  One entry of the \<open>stages\<close> list. The \<open>SUBJECT\<close> entry (non-ASCII text handed to the
  worker unread) is left out.
\<close>

record stage =
  STAGE :: string
  TARGET_HOURS_s :: string
  WINDOW_TOLERANCE_H_s :: string
  CAMPAIGN_KEY_s :: string
  TEMPLATE_FILE_s :: string
  DELAY_AFTER_MIN :: int

definition stages :: "stage list" where
  "stages =
     [\<lparr>STAGE = ''24'', TARGET_HOURS_s = ''24'', WINDOW_TOLERANCE_H_s = ''6'',
       CAMPAIGN_KEY_s = ''wishlist_v1_24h'',
       TEMPLATE_FILE_s = ''templates/wishlist_email_24h.html'', DELAY_AFTER_MIN = 2\<rparr>,
      \<lparr>STAGE = ''48'', TARGET_HOURS_s = ''48'', WINDOW_TOLERANCE_H_s = ''6'',
       CAMPAIGN_KEY_s = ''wishlist_v1_48h'',
       TEMPLATE_FILE_s = ''templates/wishlist_email_48h.html'', DELAY_AFTER_MIN = 2\<rparr>,
      \<lparr>STAGE = ''72'', TARGET_HOURS_s = ''72'', WINDOW_TOLERANCE_H_s = ''6'',
       CAMPAIGN_KEY_s = ''wishlist_v1_72h'',
       TEMPLATE_FILE_s = ''templates/wishlist_email_72h.html'', DELAY_AFTER_MIN = 0\<rparr>]"

text \<open>
  What the orchestrator cannot decide itself: whether the worker script exists, and the
  return code of the worker process started for the stage at position \<open>i\<close> of the list on
  its attempt number \<open>a\<close> (both counted from 0). Within one run each pair \<open>(i, a)\<close> occurs
  at most once, so this fixes the outcome of every launch.
\<close>

record orch_world =
  worker_exists :: bool
  returncode :: "nat \<Rightarrow> nat \<Rightarrow> int"
  pid :: nat

text \<open>The observable actions of a run: worker launches with their result, and sleeps.\<close>

datatype event = RunWorker nat int | Sleep int

subsection \<open>The lock file\<close>

text \<open>
  The file system is reduced to the lock file: \<open>None\<close> when it does not exist, otherwise
  the process id written into it. \<open>os.open\<close> with \<open>O_CREAT | O_EXCL\<close> raises
  \<open>FileExistsError\<close> when the file is there, which \<open>acquire_lock\<close> turns into \<open>False\<close>.
\<close>

type_synonym lock_file = "nat option"

definition acquire_lock :: "nat \<Rightarrow> lock_file \<Rightarrow> bool \<times> lock_file" where
  "acquire_lock p fs = (case fs of None \<Rightarrow> (True, Some p) | Some q \<Rightarrow> (False, Some q))"

definition release_lock :: "lock_file \<Rightarrow> lock_file" where
  "release_lock fs = None"

subsection \<open>Launching a worker, retrying a stage\<close>

definition run_worker :: "orch_world \<Rightarrow> nat \<Rightarrow> nat \<Rightarrow> int" where
  "run_worker w i a = (if \<not> worker_exists w then 127 else returncode w i a)"

text \<open>
  The \<open>while True\<close> loop of one stage. \<open>attempt\<close> is the number of failed launches so far.
  The result is \<open>None\<close> after \<open>break\<close> and \<open>Some rc\<close> where \<open>main\<close> returns \<open>rc\<close>.
  The index into \<open>BACKOFF_SECS\<close> is at most \<open>len(BACKOFF_SECS) - 1\<close> and, as
  \<open>attempt \<ge> 1\<close> there, not negative.
\<close>

function retry_loop :: "int \<Rightarrow> orch_world \<Rightarrow> nat \<Rightarrow> nat \<Rightarrow> int option \<times> event list" where
  "retry_loop mr w i attempt =
     (let rc = run_worker w i attempt in
      if rc = 0 then (None, [RunWorker i rc])
      else
        let attempt' = attempt + 1 in
        if int attempt' > mr then (Some rc, [RunWorker i rc])
        else
          let sleep_for = BACKOFF_SECS ! min (attempt' - 1) (length BACKOFF_SECS - 1);
              rest = retry_loop mr w i attempt'
          in (fst rest, RunWorker i rc # Sleep sleep_for # snd rest))"
  by pat_completeness auto
termination
  by (relation "measure (\<lambda>(mr, w, i, attempt). nat (mr - int attempt))") auto

declare retry_loop.simps [simp del]

text \<open>
  The pause after a stage, in local test mode only: \<open>TEST_DELAY_MIN\<close>, when set and not
  empty, goes through \<open>int\<close> (a \<open>ValueError\<close> when it is not a number), otherwise the
  stage's own \<open>DELAY_AFTER_MIN\<close> is taken; the countdown sleeps one second at a time.
\<close>

definition stage_pause :: "orch_config \<Rightarrow> stage \<Rightarrow> exn + event list" where
  "stage_pause cfg st =
     (if LOCAL_TEST_MODE cfg then
        (case (case TEST_DELAY_MIN cfg of
                 None \<Rightarrow> Some (DELAY_AFTER_MIN st)
               | Some s \<Rightarrow> if s = [] then Some (DELAY_AFTER_MIN st) else py_int s) of
           None \<Rightarrow> Inl ValueError
         | Some delay_min \<Rightarrow>
             if delay_min > 0 then Inr (replicate (nat (delay_min * 60)) (Sleep 1))
             else Inr [])
      else Inr [])"

text \<open>
  How the process ends: \<open>sys.exit\<close> with the value \<open>main\<close> returned (a worker's
  return code, or 0), or an exception that nothing catches (the interpreter then exits
  with status 1). A return code is what \<open>Popen.returncode\<close> holds: the exit status of the
  worker, from 0 to 255, or \<open>-N\<close> when signal \<open>N\<close> ended it (on a POSIX system, the
  only kind where a return code is negative). There the status of a process is one
  byte: of the value handed to \<open>sys.exit\<close> the system keeps the low eight bits, so
  that \<open>sys.exit(-9)\<close> ends the process with status 247.
\<close>

datatype ending = Exit int | Uncaught exn

definition exit_status :: "ending \<Rightarrow> int" where
  "exit_status e = (case e of Exit rc \<Rightarrow> rc mod 256 | Uncaught x \<Rightarrow> 1)"

text \<open>The \<open>for st in stages\<close> loop; \<open>i\<close> is the position of the first stage of the list.\<close>

fun run_stages :: "orch_config \<Rightarrow> orch_world \<Rightarrow> nat \<Rightarrow> stage list \<Rightarrow> ending \<times> event list" where
  "run_stages cfg w i [] = (Exit 0, [])"
| "run_stages cfg w i (st # rest) =
     (case retry_loop (MAX_RETRIES cfg) w i 0 of
        (Some rc, ev) \<Rightarrow> (Exit rc, ev)
      | (None, ev) \<Rightarrow>
          (case stage_pause cfg st of
             Inl e \<Rightarrow> (Uncaught e, ev)
           | Inr pause \<Rightarrow>
               (let r = run_stages cfg w (i + 1) rest
                in (fst r, ev @ pause @ snd r))))"

text \<open>\<open>main\<close> over a given stage list; the result is the ending, the lock file afterwards
  and the actions performed. The \<open>finally\<close> clause runs on every way out of the \<open>try\<close>.\<close>

definition main_on :: "stage list \<Rightarrow> orch_config \<Rightarrow> orch_world \<Rightarrow> lock_file
    \<Rightarrow> ending \<times> lock_file \<times> event list" where
  "main_on sts cfg w fs =
     (case acquire_lock (pid w) fs of
        (False, fs') \<Rightarrow> (Exit 0, fs', [])
      | (True, fs') \<Rightarrow>
          (let r = run_stages cfg w 0 sts
           in (fst r, release_lock fs', snd r)))"

definition orchestrator_main :: "orch_config \<Rightarrow> orch_world \<Rightarrow> lock_file
    \<Rightarrow> ending \<times> lock_file \<times> event list" where
  "orchestrator_main = main_on stages"

text \<open>Reading a trace.\<close>

fun attempts :: "event list \<Rightarrow> nat" where
  "attempts [] = 0"
| "attempts (RunWorker i rc # ev) = Suc (attempts ev)"
| "attempts (Sleep n # ev) = attempts ev"

fun sleeps :: "event list \<Rightarrow> int list" where
  "sleeps [] = []"
| "sleeps (RunWorker i rc # ev) = sleeps ev"
| "sleeps (Sleep n # ev) = n # sleeps ev"


text \<open>The delay before retry number \<open>k\<close> (\<open>k \<ge> 1\<close>), read off the table.\<close>

definition backoff_delay :: "nat \<Rightarrow> int" where
  "backoff_delay k = BACKOFF_SECS ! min (k - 1) (length BACKOFF_SECS - 1)"



subsection \<open>Sample configurations and workers\<close>

definition cfg_production :: orch_config where
  "cfg_production = \<lparr>MAX_RETRIES = 2, LOCAL_TEST_MODE = False, TEST_DELAY_MIN = None\<rparr>"


definition rc_all_ok :: "nat \<Rightarrow> nat \<Rightarrow> int" where
  "rc_all_ok i a = 0"

definition rc_fails_twice :: "nat \<Rightarrow> nat \<Rightarrow> int" where
  "rc_fails_twice i a = (if a < 2 then 1 else 0)"

definition rc_always_fails :: "nat \<Rightarrow> nat \<Rightarrow> int" where
  "rc_always_fails i a = 1"

definition rc_second_stage_fails :: "nat \<Rightarrow> nat \<Rightarrow> int" where
  "rc_second_stage_fails i a = (if i = 1 then 3 else 0)"

text \<open>A worker that the system ends with signal 9 on every launch.\<close>

definition rc_killed :: "nat \<Rightarrow> nat \<Rightarrow> int" where
  "rc_killed i a = - 9"

definition world_of :: "(nat \<Rightarrow> nat \<Rightarrow> int) \<Rightarrow> orch_world" where
  "world_of rc = \<lparr>worker_exists = True, returncode = rc, pid = 4242\<rparr>"

section \<open>wishlist_reminder.py\<close>

subsection \<open>Instants and configuration\<close>

text \<open>
  A \<open>datetime\<close> is the number of microseconds since a fixed midnight (the Unix epoch,
  say), a \<open>timedelta\<close> a number of microseconds; the calendar date of an instant is its
  day number. Python's \<open>datetime\<close> covers the years 1 to 9999 and raises
  \<open>OverflowError\<close> beyond them; the integers here are unbounded, so the model describes
  the code on instants inside that range.
\<close>

type_synonym datetime = int
type_synonym timedelta = int

definition timedelta_of :: "int \<Rightarrow> int \<Rightarrow> int \<Rightarrow> timedelta" where
  "timedelta_of days hours minutes =
     days * 86400000000 + hours * 3600000000 + minutes * 60000000"

definition date_of :: "datetime \<Rightarrow> int" where
  "date_of t = t div 86400000000"

text \<open>\<open>datetime.combine(d, datetime.min.time())\<close> and
  \<open>datetime.combine(d, datetime.max.time())\<close>; the latter is 23:59:59.999999.\<close>

definition combine_min :: "int \<Rightarrow> datetime" where
  "combine_min d = d * 86400000000"

definition combine_max :: "int \<Rightarrow> datetime" where
  "combine_max d = d * 86400000000 + 86399999999"

text \<open>The module-level settings, as read from the environment at import.\<close>

record worker_config =
  TARGET_HOURS :: int
  WINDOW_TOLERANCE_H :: int
  CAMPAIGN_KEY :: string
  MAX_BATCH :: int
  SEND_EMAILS :: bool
  FIXED_8AM_MODE :: bool
  LOCAL_TZ_OFFSET :: string
  TEMPLATE_FILE :: string
  SUBJECT :: string

subsection \<open>Window computation\<close>

text \<open>\<open>s.split(sep)\<close> for a one-character separator.\<close>

fun py_split :: "char \<Rightarrow> string \<Rightarrow> string list" where
  "py_split sep [] = [[]]"
| "py_split sep (c # cs) =
     (if c = sep then [] # py_split sep cs
      else (case py_split sep cs of
              [] \<Rightarrow> [[c]]
            | p # ps \<Rightarrow> (c # p) # ps))"

text \<open>
  \<open>parse_tz_offset_to_delta\<close>. Unpacking \<open>hh, mm = \<dots>\<close> raises \<open>ValueError\<close> unless the
  split yields exactly two parts, and so does \<open>int\<close> on a part that is not a number.
\<close>

definition parse_tz_offset_to_delta :: "string \<Rightarrow> exn + timedelta" where
  "parse_tz_offset_to_delta tz_str =
     (let s = py_strip tz_str;
          sign = (if take 1 s = ''-'' then - 1 else 1)
      in case py_split CHR '':'' (py_lstrip ''+-'' s) of
           [hh, mm] \<Rightarrow>
             (case (py_int hh, py_int mm) of
                (Some h, Some m) \<Rightarrow> Inr (sign * timedelta_of 0 h m)
              | _ \<Rightarrow> Inl ValueError)
         | _ \<Rightarrow> Inl ValueError)"

text \<open>\<open>stage_window_bounds_relative\<close>; \<open>now\<close> is the value of \<open>_now_utc()\<close>.\<close>

definition stage_window_bounds_relative :: "worker_config \<Rightarrow> datetime \<Rightarrow> datetime \<times> datetime" where
  "stage_window_bounds_relative cfg now =
     (let start = now - timedelta_of 0 (TARGET_HOURS cfg + WINDOW_TOLERANCE_H cfg) 0;
          end = now - timedelta_of 0 (TARGET_HOURS cfg - WINDOW_TOLERANCE_H cfg) 0
      in (start, end))"

text \<open>\<open>day_bounds_utc_for_target_fixed_8am\<close>; \<open>//\<close> is floor division, as \<open>div\<close> is.\<close>

definition day_bounds_utc_for_target_fixed_8am ::
    "datetime \<Rightarrow> int \<Rightarrow> string \<Rightarrow> exn + datetime \<times> datetime" where
  "day_bounds_utc_for_target_fixed_8am now target_hours tz_offset_str =
     (let days_back = max 1 (target_hours div 24) in
      case parse_tz_offset_to_delta tz_offset_str of
        Inl e \<Rightarrow> Inl e
      | Inr offset \<Rightarrow>
          (let now_local = now + offset;
               target_local_date = date_of now_local - days_back;
               start_local = combine_min target_local_date;
               end_local = combine_max target_local_date;
               start_utc = start_local - offset;
               end_utc = end_local - offset
           in Inr (start_utc, end_utc)))"

definition compute_window :: "worker_config \<Rightarrow> datetime \<Rightarrow> exn + datetime \<times> datetime \<times> string" where
  "compute_window cfg now =
     (if FIXED_8AM_MODE cfg then
        (case day_bounds_utc_for_target_fixed_8am now (TARGET_HOURS cfg) (LOCAL_TZ_OFFSET cfg) of
           Inl e \<Rightarrow> Inl e
         | Inr (s, e) \<Rightarrow> Inr (s, e, ''fixed_8am''))
      else
        (case stage_window_bounds_relative cfg now of
           (s, e) \<Rightarrow> Inr (s, e, ''relative'')))"

subsection \<open>The store\<close>

text \<open>
  The four tables the worker's candidate query and log write touch, each a list of rows
  in the order the store scans them, with the columns that are read or written.
\<close>

record guest_email =
  ge_email :: string
  ge_wishlist_id :: int
  ge_created_at :: datetime

record wl_item =
  it_ID :: int
  it_wishlist_id :: int
  it_product_id :: int

record log_row =
  log_email :: string
  log_wishlist_id :: int
  log_campaign_key :: string
  log_sent_at :: datetime

record store =
  wishlist_guest_emails :: "guest_email list"
  tinvwl_lists :: "int list"
  tinvwl_items :: "wl_item list"
  wishlist_email_log :: "log_row list"

text \<open>
  Two things the SQL text leaves to the database server and its schema, taken as
  parameters: \<open>str_eq\<close>, the comparison \<open>=\<close> of two strings under the columns'
  collation, and \<open>CONVERT_TZ_utc t tz\<close>, the value of \<open>CONVERT_TZ(t, tz, '+00:00')\<close>
  (\<open>None\<close> for SQL \<open>NULL\<close>).
\<close>

record sql_engine =
  str_eq :: "string \<Rightarrow> string \<Rightarrow> bool"
  CONVERT_TZ_utc :: "datetime \<Rightarrow> string \<Rightarrow> datetime option"

subsection \<open>Candidate selection\<close>

text \<open>\<open>strftime("%Y-%m-%d %H:%M:%S")\<close> drops the microseconds of a bound.\<close>

definition strftime_seconds :: "datetime \<Rightarrow> datetime" where
  "strftime_seconds t = (t div 1000000) * 1000000"

text \<open>The two inner joins of the query.\<close>

definition inner_joins :: "store \<Rightarrow> (guest_email \<times> int \<times> wl_item) list" where
  "inner_joins st =
     [(e, wl, it).
        e \<leftarrow> wishlist_guest_emails st,
        wl \<leftarrow> tinvwl_lists st, wl = ge_wishlist_id e,
        it \<leftarrow> tinvwl_items st, it_wishlist_id it = wl]"

text \<open>The \<open>ON\<close> condition of the left join with the log.\<close>

definition log_same_on :: "sql_engine \<Rightarrow> string \<Rightarrow> guest_email \<times> int \<times> wl_item \<Rightarrow> log_row \<Rightarrow> bool" where
  "log_same_on eng key r l =
     (case r of (e, wl, it) \<Rightarrow>
        str_eq eng (log_email l) (ge_email e) \<and>
        log_wishlist_id l = wl \<and>
        str_eq eng (log_campaign_key l) key)"

text \<open>\<open>LEFT JOIN\<close>: every left row paired with each log row that matches, or once with
  \<open>NULL\<close>s when none does.\<close>

definition left_join_log :: "sql_engine \<Rightarrow> string \<Rightarrow> log_row list
    \<Rightarrow> (guest_email \<times> int \<times> wl_item) list
    \<Rightarrow> ((guest_email \<times> int \<times> wl_item) \<times> log_row option) list" where
  "left_join_log eng key lg rows =
     concat (map (\<lambda>r.
        (let ms = filter (log_same_on eng key r) lg
         in if ms = [] then [(r, None)] else map (\<lambda>l. (r, Some l)) ms)) rows)"

text \<open>
  The \<open>WHERE\<close> clause; \<open>lo\<close> and \<open>hi\<close> are the bounds as sent to the store.
  \<open>log_same.wishlist_id IS NULL\<close> holds on the rows the left join padded and on no
  other: a log row that matched has the wishlist id of the list.
\<close>

definition where_clause :: "sql_engine \<Rightarrow> string \<Rightarrow> datetime \<Rightarrow> datetime
    \<Rightarrow> (guest_email \<times> int \<times> wl_item) \<times> log_row option \<Rightarrow> bool" where
  "where_clause eng tz lo hi row =
     (case row of ((e, wl, it), log_same) \<Rightarrow>
        (case CONVERT_TZ_utc eng (ge_created_at e) tz of
           None \<Rightarrow> False
         | Some t \<Rightarrow> lo \<le> t \<and> t \<le> hi) \<and>
        (case log_same of None \<Rightarrow> True | Some l \<Rightarrow> False))"

text \<open>
  \<open>SELECT DISTINCT\<close>: a row is dropped when a row already kept equals it, the e-mail
  column compared under the collation.
\<close>

definition row_eq :: "sql_engine \<Rightarrow> string \<times> int \<Rightarrow> string \<times> int \<Rightarrow> bool" where
  "row_eq eng a b = (str_eq eng (fst a) (fst b) \<and> snd a = snd b)"

fun sql_distinct :: "('a \<Rightarrow> 'a \<Rightarrow> bool) \<Rightarrow> 'a list \<Rightarrow> 'a list \<Rightarrow> 'a list" where
  "sql_distinct eq seen [] = []"
| "sql_distinct eq seen (x # xs) =
     (if list_ex (\<lambda>s. eq s x) seen then sql_distinct eq seen xs
      else x # sql_distinct eq (seen @ [x]) xs)"

text \<open>
  \<open>select_candidates\<close>: the rows of the result set as (email, wishlist_id). A negative
  \<open>LIMIT\<close> is rejected by the server, which the connector raises as an error. Without an
  \<open>ORDER BY\<close> the order of the result is the store's; the model takes table order.
\<close>

definition select_candidates :: "sql_engine \<Rightarrow> worker_config \<Rightarrow> store \<Rightarrow> datetime \<Rightarrow> datetime
    \<Rightarrow> exn + (string \<times> int) list" where
  "select_candidates eng cfg st start_utc end_utc =
     (if MAX_BATCH cfg < 0 then Inl DatabaseError
      else
        Inr (take (nat (MAX_BATCH cfg))
          (sql_distinct (row_eq eng) []
            (map (\<lambda>((e, wl, it), log_same). (ge_email e, wl))
              (filter
                (where_clause eng (LOCAL_TZ_OFFSET cfg)
                   (strftime_seconds start_utc) (strftime_seconds end_utc))
                (left_join_log eng (CAMPAIGN_KEY cfg) (wishlist_email_log st)
                   (inner_joins st)))))))"

subsection \<open>The sent log\<close>

text \<open>
  Modelled from the spec: the unique key of the sent-log table, whose \<open>CREATE TABLE\<close> is
  not in the repository. The spec keys a sent record by (recipient, subject-entity,
  campaign identity), so two rows collide when they agree on e-mail, wishlist and
  campaign key.
\<close>

definition duplicate_key :: "sql_engine \<Rightarrow> log_row \<Rightarrow> log_row \<Rightarrow> bool" where
  "duplicate_key eng l r =
     (str_eq eng (log_email l) (log_email r) \<and>
      log_wishlist_id l = log_wishlist_id r \<and>
      str_eq eng (log_campaign_key l) (log_campaign_key r))"

text \<open>\<open>INSERT \<dots> ON DUPLICATE KEY UPDATE campaign_key = \<dots>, sent_at = \<dots>\<close>.\<close>

fun upsert_log :: "sql_engine \<Rightarrow> log_row list \<Rightarrow> log_row \<Rightarrow> log_row list" where
  "upsert_log eng [] r = [r]"
| "upsert_log eng (l # ls) r =
     (if duplicate_key eng l r
      then l\<lparr>log_campaign_key := log_campaign_key r, log_sent_at := log_sent_at r\<rparr> # ls
      else l # upsert_log eng ls r)"

text \<open>\<open>insert_log\<close>; \<open>utc_timestamp\<close> is the store's \<open>UTC_TIMESTAMP()\<close>.\<close>

definition insert_log :: "sql_engine \<Rightarrow> datetime \<Rightarrow> store \<Rightarrow> string \<Rightarrow> int \<Rightarrow> string \<Rightarrow> store" where
  "insert_log eng utc_timestamp st email wishlist_id campaign_key =
     st\<lparr>wishlist_email_log :=
          upsert_log eng (wishlist_email_log st)
            \<lparr>log_email = py_strip (py_lower email), log_wishlist_id = wishlist_id,
             log_campaign_key = campaign_key, log_sent_at = utc_timestamp\<rparr>\<rparr>"

subsection \<open>The worker's main\<close>

text \<open>
  What a run meets outside the code: the clock, the store's clock at the log writes
  (one value for the run), the template file, the connection, the SMTP transport, a
  possible failure of the store on a statement, and the outcome of \<open>render_template\<close>
  for a wishlist and a template. The latter reads the product tables, which the worker
  never writes; it raises when one of its statements fails, when a product's
  \<open>_thumbnail_id\<close> is not a number (\<open>int\<close>), and when \<open>_base_url\<close> rejects
  \<open>WISHLIST_URL\<close> (\<open>RuntimeError\<close>).
\<close>

record worker_env =
  now_utc :: datetime
  UTC_TIMESTAMP :: datetime
  load_template :: "string \<Rightarrow> exn + string"
  mysql_conn :: "exn option"
  select_error :: "exn option"
  render_template :: "int \<Rightarrow> string \<Rightarrow> exn + string"
  send_email :: "string \<Rightarrow> string \<Rightarrow> string \<Rightarrow> exn + string"
  insert_error :: "string \<Rightarrow> int \<Rightarrow> exn option"

text \<open>The lines a run prints that tell outcomes apart.\<close>

datatype console =
    ENVIADO string int string
  | ERROR_Enviando string int exn
  | PREVIEW string int
  | No_hay_destinatarios
  | ERROR_plantilla exn
  | ERROR_MySQL exn
  | FATAL exn

text \<open>The state a run changes: the store, the calls made to \<open>send_email\<close> (recipient,
  subject, body), and the console.\<close>

record worker_state =
  db :: store
  smtp_calls :: "(string \<times> string \<times> string) list"
  printed :: "console list"

text \<open>
  The \<open>for r in rows\<close> loop of \<open>main\<close>. \<open>render_template\<close> is called before the \<open>try\<close>;
  \<open>send_email\<close> and \<open>insert_log\<close> are inside it. The result is the exception that left
  the loop, if any, and the state reached.
\<close>

fun send_loop :: "sql_engine \<Rightarrow> worker_config \<Rightarrow> worker_env \<Rightarrow> string \<Rightarrow> (string \<times> int) list
    \<Rightarrow> worker_state \<Rightarrow> exn option \<times> worker_state" where
  "send_loop eng cfg env base_template [] s = (None, s)"
| "send_loop eng cfg env base_template (r # rows) s =
     (let email = py_lower (py_strip (fst r));
          wishlist_id = snd r
      in case render_template env wishlist_id base_template of
           Inl e \<Rightarrow> (Some e, s)
         | Inr html \<Rightarrow>
             if SEND_EMAILS cfg then
               (let s1 = s\<lparr>smtp_calls := smtp_calls s @ [(email, SUBJECT cfg, html)]\<rparr>
                in case send_email env email (SUBJECT cfg) html of
                     Inl e \<Rightarrow>
                       send_loop eng cfg env base_template rows
                         (s1\<lparr>printed := printed s1 @ [ERROR_Enviando email wishlist_id e]\<rparr>)
                   | Inr message_id \<Rightarrow>
                       (case insert_error env email wishlist_id of
                          Some e \<Rightarrow>
                            send_loop eng cfg env base_template rows
                              (s1\<lparr>printed := printed s1 @ [ERROR_Enviando email wishlist_id e]\<rparr>)
                        | None \<Rightarrow>
                            send_loop eng cfg env base_template rows
                              (s1\<lparr>db := insert_log eng (UTC_TIMESTAMP env) (db s1) email
                                          wishlist_id (CAMPAIGN_KEY cfg),
                                  printed := printed s1 @ [ENVIADO email wishlist_id message_id]\<rparr>)))
             else
               send_loop eng cfg env base_template rows
                 (s\<lparr>printed := printed s @ [PREVIEW email wishlist_id]\<rparr>))"

text \<open>
  \<open>main\<close> together with the \<open>__main__\<close> block: the exit status of the worker process and
  the state it leaves. Status 2 and 3 are the \<open>sys.exit\<close> calls of \<open>main\<close>, status 1 the
  handler for any other exception, status 0 a normal return.
\<close>

definition worker_main :: "sql_engine \<Rightarrow> worker_config \<Rightarrow> worker_env \<Rightarrow> worker_state
    \<Rightarrow> int \<times> worker_state" where
  "worker_main eng cfg env s =
     (case compute_window cfg (now_utc env) of
        Inl e \<Rightarrow> (1, s\<lparr>printed := printed s @ [FATAL e]\<rparr>)
      | Inr (start_utc, end_utc, mode) \<Rightarrow>
          (case load_template env (TEMPLATE_FILE cfg) of
             Inl e \<Rightarrow> (2, s\<lparr>printed := printed s @ [ERROR_plantilla e]\<rparr>)
           | Inr base_template \<Rightarrow>
               (case mysql_conn env of
                  Some e \<Rightarrow> (3, s\<lparr>printed := printed s @ [ERROR_MySQL e]\<rparr>)
                | None \<Rightarrow>
                    (case (case select_error env of
                             Some e \<Rightarrow> Inl e
                           | None \<Rightarrow> select_candidates eng cfg (db s) start_utc end_utc) of
                       Inl e \<Rightarrow> (1, s\<lparr>printed := printed s @ [FATAL e]\<rparr>)
                     | Inr rows \<Rightarrow>
                         if rows = [] then (0, s\<lparr>printed := printed s @ [No_hay_destinatarios]\<rparr>)
                         else
                           (case send_loop eng cfg env base_template rows s of
                              (Some e, s') \<Rightarrow> (1, s'\<lparr>printed := printed s' @ [FATAL e]\<rparr>)
                            | (None, s') \<Rightarrow> (0, s'))))))"

subsection \<open>Notions used to state the properties of the query\<close>

text \<open>The window condition of the \<open>WHERE\<close> clause on one guest row.\<close>

definition window_ok :: "sql_engine \<Rightarrow> string \<Rightarrow> datetime \<Rightarrow> datetime \<Rightarrow> guest_email \<Rightarrow> bool" where
  "window_ok eng tz lo hi e =
     (case CONVERT_TZ_utc eng (ge_created_at e) tz of None \<Rightarrow> False | Some t \<Rightarrow> lo \<le> t \<and> t \<le> hi)"

text \<open>The log holds a row that the join's \<open>ON\<close> condition matches with the pair
  (email, wishlist) under the campaign key.\<close>

definition log_matches :: "sql_engine \<Rightarrow> log_row list \<Rightarrow> string \<Rightarrow> int \<Rightarrow> string \<Rightarrow> bool" where
  "log_matches eng lg email wid key =
     list_ex (\<lambda>l. str_eq eng (log_email l) email \<and> log_wishlist_id l = wid \<and>
                   str_eq eng (log_campaign_key l) key) lg"

text \<open>The rows of the query before \<open>DISTINCT\<close> and \<open>LIMIT\<close>.\<close>

definition candidate_pairs :: "sql_engine \<Rightarrow> worker_config \<Rightarrow> store \<Rightarrow> datetime \<Rightarrow> datetime
    \<Rightarrow> (string \<times> int) list" where
  "candidate_pairs eng cfg st lo hi =
     map (\<lambda>r. (ge_email (fst r), fst (snd r)))
       (filter (\<lambda>r. window_ok eng (LOCAL_TZ_OFFSET cfg) lo hi (fst r) \<and>
                     \<not> log_matches eng (wishlist_email_log st) (ge_email (fst r)) (fst (snd r))
                         (CAMPAIGN_KEY cfg))
          (inner_joins st))"

text \<open>The store after a sequence of further \<open>insert_log\<close> calls, each given as
  (timestamp, email, wishlist, campaign key).\<close>

definition insert_logs :: "sql_engine \<Rightarrow> store \<Rightarrow> (datetime \<times> string \<times> int \<times> string) list \<Rightarrow> store" where
  "insert_logs eng st calls =
     foldl (\<lambda>d call. case call of (ts, a, s, c) \<Rightarrow> insert_log eng ts d a s c) st calls"

subsection \<open>Notions used to state the properties of the send loop\<close>




subsection \<open>Sample instants, settings and stores\<close>

text \<open>The instant \<open>h:m:s.us\<close> of day number \<open>day\<close>.\<close>

definition instant :: "int \<Rightarrow> int \<Rightarrow> int \<Rightarrow> int \<Rightarrow> int \<Rightarrow> datetime" where
  "instant day h m s us =
     day * 86400000000 + h * 3600000000 + m * 60000000 + s * 1000000 + us"

definition cfg_24h :: worker_config where
  "cfg_24h =
     \<lparr>TARGET_HOURS = 24, WINDOW_TOLERANCE_H = 6, CAMPAIGN_KEY = ''wishlist_v1_24h'',
      MAX_BATCH = 300, SEND_EMAILS = True, FIXED_8AM_MODE = False,
      LOCAL_TZ_OFFSET = ''-06:00'', TEMPLATE_FILE = ''templates/wishlist_email_24h.html'',
      SUBJECT = ''Tu reloj favorito te espera''\<rparr>"

definition cfg_24h_preview :: worker_config where
  "cfg_24h_preview = cfg_24h\<lparr>SEND_EMAILS := False\<rparr>"

definition cfg_now_before_window :: worker_config where
  "cfg_now_before_window = cfg_24h\<lparr>TARGET_HOURS := 0\<rparr>"

text \<open>
  Two servers to run the query on. The first compares strings without regard to case
  and trailing spaces, as a case-insensitive collation that pads with spaces does; the
  second compares them byte by byte. Both shift a timestamp by the offset that
  \<open>parse_tz_offset_to_delta\<close> reads from the string.
\<close>

definition ci_pad_eq :: "string \<Rightarrow> string \<Rightarrow> bool" where
  "ci_pad_eq a b = (py_rstrip [CHR 0x20] (py_lower a) = py_rstrip [CHR 0x20] (py_lower b))"

definition binary_eq :: "string \<Rightarrow> string \<Rightarrow> bool" where
  "binary_eq a b = (a = b)"

definition offset_to_utc :: "datetime \<Rightarrow> string \<Rightarrow> datetime option" where
  "offset_to_utc t tz =
     (case parse_tz_offset_to_delta tz of Inl e \<Rightarrow> None | Inr offset \<Rightarrow> Some (t - offset))"

definition engine_ci :: sql_engine where
  "engine_ci = \<lparr>str_eq = ci_pad_eq, CONVERT_TZ_utc = offset_to_utc\<rparr>"

definition engine_binary :: sql_engine where
  "engine_binary = \<lparr>str_eq = binary_eq, CONVERT_TZ_utc = offset_to_utc\<rparr>"

text \<open>
  A store with three guests. The first address was saved with a leading space and
  capitals; the third guest's wishlist has no item. The creation times are local
  (offset \<open>-06:00\<close>): 12:00:00, 13:00:00 and 14:00:00 UTC of day 19999.
\<close>

definition guest_ana :: guest_email where
  "guest_ana = \<lparr>ge_email = '' Ana@Example.com'', ge_wishlist_id = 7,
                 ge_created_at = instant 19999 6 0 0 0\<rparr>"

definition guest_bea :: guest_email where
  "guest_bea = \<lparr>ge_email = ''bea@example.com'', ge_wishlist_id = 8,
                 ge_created_at = instant 19999 7 0 0 0\<rparr>"

definition guest_cy :: guest_email where
  "guest_cy = \<lparr>ge_email = ''cy@example.com'', ge_wishlist_id = 9,
                ge_created_at = instant 19999 8 0 0 0\<rparr>"

definition store_sample :: store where
  "store_sample =
     \<lparr>wishlist_guest_emails = [guest_ana, guest_bea, guest_cy],
      tinvwl_lists = [7, 8, 9],
      tinvwl_items =
        [\<lparr>it_ID = 1, it_wishlist_id = 7, it_product_id = 100\<rparr>,
         \<lparr>it_ID = 2, it_wishlist_id = 7, it_product_id = 101\<rparr>,
         \<lparr>it_ID = 3, it_wishlist_id = 8, it_product_id = 102\<rparr>],
      wishlist_email_log = []\<rparr>"

definition state_sample :: worker_state where
  "state_sample = \<lparr>db = store_sample, smtp_calls = [], printed = []\<rparr>"

text \<open>
  A run at 18:00:00.5 UTC of day 20000 in which every collaborator works, and two
  variants: rendering raises for wishlist 7, sending raises for Ana's address.
\<close>

definition env_ok :: worker_env where
  "env_ok =
     \<lparr>now_utc = instant 20000 18 0 0 500000,
      UTC_TIMESTAMP = instant 20000 18 0 1 0,
      load_template = (\<lambda>path. Inr ''<html>{{PRODUCTS}}</html>''),
      mysql_conn = None,
      select_error = None,
      render_template = (\<lambda>wishlist_id base_html. Inr base_html),
      send_email = (\<lambda>to_email subject html. Inr ''<1@example.com>''),
      insert_error = (\<lambda>email wishlist_id. None)\<rparr>"



text \<open>The template \<open>env_ok\<close> loads, the window of \<open>cfg_24h\<close> at its clock, and the
  candidates the sample store has in that window.\<close>

definition template_sample :: string where
  "template_sample = ''<html>{{PRODUCTS}}</html>''"

definition start_sample :: datetime where
  "start_sample = instant 19999 12 0 0 500000"

definition end_sample :: datetime where
  "end_sample = instant 20000 0 0 0 500000"

definition rows_sample :: "(string \<times> int) list" where
  "rows_sample = [('' Ana@Example.com'', 7), (''bea@example.com'', 8)]"

section \<open>Properties of the orchestrator\<close>

subsection \<open>The retry loop\<close>

lemma backoff_delay_1: "backoff_delay (Suc 0) = 10" by (simp add: backoff_delay_def BACKOFF_SECS_def)
lemma backoff_delay_ge2: "2 \<le> k \<Longrightarrow> backoff_delay k = 30"
  by (simp add: backoff_delay_def BACKOFF_SECS_def min_def)

lemma retry_loop_ok: "run_worker w i a = 0 \<Longrightarrow> retry_loop mr w i a = (None, [RunWorker i 0])"
  by (subst retry_loop.simps) simp

lemma retry_loop_fatal:
  "run_worker w i a \<noteq> 0 \<Longrightarrow> mr < int (Suc a) \<Longrightarrow>
   retry_loop mr w i a = (Some (run_worker w i a), [RunWorker i (run_worker w i a)])"
  by (subst retry_loop.simps) (simp add: Let_def)

lemma retry_loop_again:
  "run_worker w i a \<noteq> 0 \<Longrightarrow> int (Suc a) \<le> mr \<Longrightarrow>
   retry_loop mr w i a =
     (fst (retry_loop mr w i (Suc a)),
      RunWorker i (run_worker w i a) # Sleep (backoff_delay (Suc a)) # snd (retry_loop mr w i (Suc a)))"
  by (subst retry_loop.simps) (simp add: Let_def backoff_delay_def)

lemma retry_sleeps:
  "sleeps (snd (retry_loop mr w i a)) =
     map backoff_delay [Suc a ..< a + attempts (snd (retry_loop mr w i a))]"
proof (induction mr w i a rule: retry_loop.induct)
  case (1 mr w i a)
  show ?case
  proof (cases "run_worker w i a = 0")
    case True
    then show ?thesis by (simp add: retry_loop_ok)
  next
    case False
    show ?thesis
    proof (cases "int (Suc a) \<le> mr")
      case True
      have ih: "sleeps (snd (retry_loop mr w i (Suc a))) =
        map backoff_delay [Suc (Suc a) ..< Suc a + attempts (snd (retry_loop mr w i (Suc a)))]"
        using "1.IH" [OF refl False refl] True by simp
      have pos: "0 < attempts (snd (retry_loop mr w i (Suc a)))"
        by (subst retry_loop.simps) (simp add: Let_def)
      define n where "n = attempts (snd (retry_loop mr w i (Suc a)))"
      have up: "[Suc a ..< a + Suc n] = Suc a # [Suc (Suc a) ..< Suc a + n]"
        using pos by (simp add: n_def upt_conv_Cons)
      have "sleeps (snd (retry_loop mr w i a)) =
          backoff_delay (Suc a) # map backoff_delay [Suc (Suc a) ..< Suc a + n]"
        using False True ih by (simp add: retry_loop_again n_def)
      moreover have "attempts (snd (retry_loop mr w i a)) = Suc n"
        using False True by (simp add: retry_loop_again n_def)
      ultimately show ?thesis using up by simp
    next
      case F2: False
      then show ?thesis using False by (simp add: retry_loop_fatal)
    qed
  qed
qed

lemma retry_always_fail:
  "\<forall>b. run_worker w i b \<noteq> 0 \<Longrightarrow> a \<le> nat mr \<Longrightarrow>
   fst (retry_loop mr w i a) = Some (run_worker w i (nat mr)) \<and>
   attempts (snd (retry_loop mr w i a)) = nat mr + 1 - a"
proof (induction mr w i a rule: retry_loop.induct)
  case (1 mr w i a)
  have nz: "run_worker w i a \<noteq> 0" using "1.prems" by simp
  show ?case
  proof (cases "int (Suc a) \<le> mr")
    case True
    then have le: "Suc a \<le> nat mr" by linarith
    have "fst (retry_loop mr w i (Suc a)) = Some (run_worker w i (nat mr)) \<and>
          attempts (snd (retry_loop mr w i (Suc a))) = nat mr + 1 - Suc a"
      using "1.IH" [OF refl nz refl] True "1.prems"(1) le by simp
    then show ?thesis using nz True le by (simp add: retry_loop_again)
  next
    case False
    then have "nat mr = a" using "1.prems" by linarith
    then show ?thesis using nz False by (simp add: retry_loop_fatal)
  qed
qed













lemma rw_fails_twice [simp]: "run_worker (world_of rc_fails_twice) i a = (if a < 2 then 1 else 0)"
  by (simp add: run_worker_def world_of_def rc_fails_twice_def)

lemma rw_always_fails [simp]: "run_worker (world_of rc_always_fails) i a = 1"
  by (simp add: run_worker_def world_of_def rc_always_fails_def)

lemma rw_ok [simp]: "run_worker (world_of rc_all_ok) i a = 0"
  by (simp add: run_worker_def world_of_def rc_all_ok_def)

lemma rw_killed [simp]: "run_worker (world_of rc_killed) i a = - 9"
  by (simp add: run_worker_def world_of_def rc_killed_def)

lemma rw_second [simp]: "run_worker (world_of rc_second_stage_fails) i a = (if i = 1 then 3 else 0)"
  by (simp add: run_worker_def world_of_def rc_second_stage_fails_def)

subsection \<open>The lock\<close>

text \<open>
  C8. While the lock file exists (written by a holder \<open>q\<close>), \<open>acquire_lock\<close> returns
  \<open>False\<close> at once, as a value and not as an exception, and leaves the file as it is;
  once \<open>release_lock\<close> has removed the file, \<open>acquire_lock\<close> succeeds again. A run of
  \<open>main\<close> that finds the lock held launches nothing, leaves the lock to its owner and
  ends with status 0.
\<close>

theorem lock_semantics:
  "acquire_lock q None = (True, Some q) \<and>
   acquire_lock p (Some q) = (False, Some q) \<and>
   acquire_lock p (release_lock (Some q)) = (True, Some p) \<and>
   main_on sts cfg w (Some q) = (Exit 0, Some q, []) \<and>
   exit_status (fst (main_on sts cfg w (Some q))) = 0"
  by (simp add: acquire_lock_def release_lock_def main_on_def exit_status_def)


theorem lock_semantics_witness:
  "acquire_lock 11 (Some 7) = (False, Some 7) \<and>
   acquire_lock 11 (release_lock (Some 7)) = (True, Some 11) \<and>
   orchestrator_main cfg_production (world_of rc_always_fails) (Some 7) = (Exit 0, Some 7, [])"
  using lock_semantics [of 7 11 stages cfg_production "world_of rc_always_fails"]
  by (simp add: orchestrator_main_def)

subsection \<open>Retry with backoff\<close>

text \<open>
  C6. With \<open>MAX_RETRIES = 2\<close> and \<open>BACKOFF_SECS = [10, 30]\<close>, a worker that fails on
  its first two launches and succeeds on the third is launched exactly three times, with
  sleeps of 10 and then 30 seconds in between. A worker that always fails is launched
  exactly \<open>MAX_RETRIES + 1\<close> times (once when \<open>MAX_RETRIES\<close> is negative) and the loop
  then hands its last return code to \<open>main\<close>, which returns it at once. In every run the sleep before retry number \<open>k\<close> is the entry of
  \<open>BACKOFF_SECS\<close> at index \<open>min (k - 1) (len - 1)\<close>: 10 for the first retry and the last
  entry, 30, for all later ones.
\<close>

theorem retry_backoff_schedule:
  "(run_worker w i 0 \<noteq> 0 \<and> run_worker w i 1 \<noteq> 0 \<and> run_worker w i 2 = 0 \<longrightarrow>
      retry_loop 2 w i 0 =
        (None, [RunWorker i (run_worker w i 0), Sleep 10,
                RunWorker i (run_worker w i 1), Sleep 30, RunWorker i 0]) \<and>
      attempts (snd (retry_loop 2 w i 0)) = 3 \<and>
      sleeps (snd (retry_loop 2 w i 0)) = [10, 30])
   \<and> ((\<forall>a. run_worker w i a \<noteq> 0) \<longrightarrow>
        fst (retry_loop mr w i 0) = Some (run_worker w i (nat mr)) \<and>
        run_worker w i (nat mr) \<noteq> 0 \<and>
        attempts (snd (retry_loop mr w i 0)) = nat mr + 1 \<and>
        (0 \<le> mr \<longrightarrow> int (attempts (snd (retry_loop mr w i 0))) = mr + 1))
   \<and> ((\<forall>a. run_worker w i a \<noteq> 0) \<longrightarrow>
        fst (run_stages cfg w i (st # rest)) = Exit (run_worker w i (nat (MAX_RETRIES cfg))) \<and>
        attempts (snd (run_stages cfg w i (st # rest))) = nat (MAX_RETRIES cfg) + 1)
   \<and> sleeps (snd (retry_loop mr w i 0)) =
        map backoff_delay [1 ..< attempts (snd (retry_loop mr w i 0))]
   \<and> backoff_delay k = BACKOFF_SECS ! min (k - 1) (length BACKOFF_SECS - 1)
   \<and> backoff_delay 1 = 10
   \<and> (2 \<le> k \<longrightarrow> backoff_delay k = 30 \<and> backoff_delay k = last BACKOFF_SECS)"
proof (intro conjI impI)
  assume h: "run_worker w i 0 \<noteq> 0 \<and> run_worker w i 1 \<noteq> 0 \<and> run_worker w i 2 = 0"
  have s2: "Suc (Suc 0) = 2" by simp
  have "retry_loop 2 w i 2 = (None, [RunWorker i 0])" using h by (simp add: retry_loop_ok)
  moreover have "retry_loop 2 w i 1 =
      (fst (retry_loop 2 w i 2),
       RunWorker i (run_worker w i 1) # Sleep (backoff_delay 2) # snd (retry_loop 2 w i 2))"
    using h retry_loop_again [of w i 1 2] by (simp add: s2)
  moreover have "retry_loop 2 w i 0 =
      (fst (retry_loop 2 w i 1),
       RunWorker i (run_worker w i 0) # Sleep (backoff_delay 1) # snd (retry_loop 2 w i 1))"
    using h retry_loop_again [of w i 0 2] by simp
  ultimately show e: "retry_loop 2 w i 0 =
        (None, [RunWorker i (run_worker w i 0), Sleep 10,
                RunWorker i (run_worker w i 1), Sleep 30, RunWorker i 0])"
    using backoff_delay_1 backoff_delay_ge2 [of 2] by simp
  show "attempts (snd (retry_loop 2 w i 0)) = 3" unfolding e by simp
  show "sleeps (snd (retry_loop 2 w i 0)) = [10, 30]" unfolding e by simp
next
  assume h: "\<forall>a. run_worker w i a \<noteq> 0"
  then show "fst (retry_loop mr w i 0) = Some (run_worker w i (nat mr))"
    using retry_always_fail [of w i 0 mr] by simp
  show "run_worker w i (nat mr) \<noteq> 0" using h by simp
  show n: "attempts (snd (retry_loop mr w i 0)) = nat mr + 1"
    using h retry_always_fail [of w i 0 mr] by simp
  assume "0 \<le> mr"
  then show "int (attempts (snd (retry_loop mr w i 0))) = mr + 1" using n by simp
next
  assume h: "\<forall>a. run_worker w i a \<noteq> 0"
  have f: "fst (retry_loop (MAX_RETRIES cfg) w i 0) = Some (run_worker w i (nat (MAX_RETRIES cfg))) \<and>
      attempts (snd (retry_loop (MAX_RETRIES cfg) w i 0)) = nat (MAX_RETRIES cfg) + 1"
    using h retry_always_fail [of w i 0 "MAX_RETRIES cfg"] by simp
  then obtain ev where r: "retry_loop (MAX_RETRIES cfg) w i 0 =
      (Some (run_worker w i (nat (MAX_RETRIES cfg))), ev)"
    by (cases "retry_loop (MAX_RETRIES cfg) w i 0") simp
  show "fst (run_stages cfg w i (st # rest)) = Exit (run_worker w i (nat (MAX_RETRIES cfg)))"
    using r by simp
  show "attempts (snd (run_stages cfg w i (st # rest))) = nat (MAX_RETRIES cfg) + 1"
    using r f by simp
next
  show "sleeps (snd (retry_loop mr w i 0)) =
        map backoff_delay [1 ..< attempts (snd (retry_loop mr w i 0))]"
    using retry_sleeps [of mr w i 0] by simp
next
  show "backoff_delay k = BACKOFF_SECS ! min (k - 1) (length BACKOFF_SECS - 1)"
    by (simp add: backoff_delay_def)
next
  show "backoff_delay 1 = 10" using backoff_delay_1 by simp
next
  assume "2 \<le> k"
  then show "backoff_delay k = 30" by (rule backoff_delay_ge2)
next
  assume "2 \<le> k"
  then show "backoff_delay k = last BACKOFF_SECS"
    using backoff_delay_ge2 by (simp add: BACKOFF_SECS_def)
qed



theorem retry_backoff_schedule_witness:
  "retry_loop 2 (world_of rc_fails_twice) 0 0 =
     (None, [RunWorker 0 1, Sleep 10, RunWorker 0 1, Sleep 30, RunWorker 0 0]) \<and>
   fst (retry_loop 2 (world_of rc_always_fails) 0 0) = Some 1 \<and>
   attempts (snd (retry_loop 2 (world_of rc_always_fails) 0 0)) = 3 \<and>
   sleeps (snd (retry_loop 4 (world_of rc_always_fails) 0 0)) = [10, 30, 30, 30]"
proof -
  have a: "retry_loop 2 (world_of rc_fails_twice) 0 0 =
     (None, [RunWorker 0 1, Sleep 10, RunWorker 0 1, Sleep 30, RunWorker 0 0])"
    using retry_backoff_schedule [where w = "world_of rc_fails_twice" and i = 0 and mr = 2 and k = 2
        and cfg = cfg_production and st = "hd stages" and rest = "[]"] by (simp del: run_stages.simps)
  have b: "fst (retry_loop 2 (world_of rc_always_fails) 0 0) = Some 1 \<and>
   attempts (snd (retry_loop 2 (world_of rc_always_fails) 0 0)) = 3"
    using retry_backoff_schedule [where w = "world_of rc_always_fails" and i = 0 and mr = 2 and k = 2
        and cfg = cfg_production and st = "hd stages" and rest = "[]"] by (simp del: run_stages.simps)
  have c4: "attempts (snd (retry_loop 4 (world_of rc_always_fails) 0 0)) = 5"
    using retry_backoff_schedule [where w = "world_of rc_always_fails" and i = 0 and mr = 4 and k = 2
        and cfg = cfg_production and st = "hd stages" and rest = "[]"] by (simp del: run_stages.simps)
  have u: "[1 ..< 5] = [1, 2, 3, 4::nat]" by (simp add: upt_rec)
  have d: "backoff_delay 2 = 30 \<and> backoff_delay 3 = 30 \<and> backoff_delay 4 = 30 \<and> backoff_delay 1 = 10"
    using retry_backoff_schedule [where w = "world_of rc_always_fails" and i = 0 and mr = 4 and k = 2
        and cfg = cfg_production and st = "hd stages" and rest = "[]"]
      retry_backoff_schedule [where w = "world_of rc_always_fails" and i = 0 and mr = 4 and k = 3
        and cfg = cfg_production and st = "hd stages" and rest = "[]"]
      retry_backoff_schedule [where w = "world_of rc_always_fails" and i = 0 and mr = 4 and k = 4
        and cfg = cfg_production and st = "hd stages" and rest = "[]"] by (simp del: run_stages.simps)
  have c: "sleeps (snd (retry_loop 4 (world_of rc_always_fails) 0 0)) = [10, 30, 30, 30]"
    using retry_backoff_schedule [where w = "world_of rc_always_fails" and i = 0 and mr = 4 and k = 2
        and cfg = cfg_production and st = "hd stages" and rest = "[]"] c4 u d by (simp del: run_stages.simps)
  show ?thesis using a b c by (simp del: run_stages.simps)
qed

subsection \<open>Exit status of the pipeline\<close>




section \<open>Properties of the worker\<close>

subsection \<open>Strings\<close>

lemma of_char_lower: "is_upper c \<Longrightarrow> of_char (lower_char c) = (of_char c + 32 :: nat)"
  by (auto simp: lower_char_def is_upper_def Let_def)

lemma lower_not_upper: "\<not> is_upper (lower_char c)"
proof (cases "is_upper c")
  case True
  then show ?thesis using of_char_lower [OF True] by (auto simp: is_upper_def Let_def)
next
  case False
  then show ?thesis by (simp add: lower_char_def)
qed

lemma lower_char_idem: "lower_char (lower_char c) = lower_char c"
  using lower_not_upper [of c] by (simp add: lower_char_def [of "lower_char c"])

lemma whitespace_codes:
  "c \<in> set py_whitespace \<Longrightarrow>
   (of_char c :: nat) \<in> {9, 10, 11, 12, 13, 28, 29, 30, 31, 32, 133, 160}"
  by (auto simp: py_whitespace_def)

lemma upper_not_whitespace: "is_upper c \<Longrightarrow> c \<notin> set py_whitespace"
  using whitespace_codes [of c] by (auto simp: is_upper_def Let_def)

lemma lower_char_whitespace: "lower_char c \<in> set py_whitespace \<longleftrightarrow> c \<in> set py_whitespace"
proof (cases "is_upper c")
  case True
  have "lower_char c \<notin> set py_whitespace"
    using whitespace_codes [of "lower_char c"] of_char_lower [OF True] True
    by (auto simp: is_upper_def Let_def)
  then show ?thesis using upper_not_whitespace [OF True] by simp
next
  case False
  then show ?thesis by (simp add: lower_char_def)
qed

lemma py_lower_idem: "py_lower (py_lower s) = py_lower s"
  by (simp add: py_lower_def lower_char_idem)

lemma py_strip_lower: "py_strip (py_lower s) = py_lower (py_strip s)"
proof -
  have c: "(\<lambda>c. c \<in> set py_whitespace) \<circ> lower_char = (\<lambda>c. c \<in> set py_whitespace)"
    by (simp add: fun_eq_iff lower_char_whitespace)
  have l: "py_lstrip py_whitespace (map lower_char t) = map lower_char (py_lstrip py_whitespace t)" for t
    by (simp add: py_lstrip_def dropWhile_map c)
  have r: "py_rstrip py_whitespace (map lower_char t) = map lower_char (py_rstrip py_whitespace t)" for t
    by (simp add: py_rstrip_def dropWhile_map c rev_map)
  show ?thesis by (simp add: py_strip_def py_lower_def l r)
qed

lemma dropWhile_last:
  "xs \<noteq> [] \<Longrightarrow> \<not> P (last xs) \<Longrightarrow> dropWhile P xs \<noteq> [] \<and> last (dropWhile P xs) = last xs"
  by (induction xs) (auto split: if_splits)

lemma whitespace_of_code:
  assumes "(of_char c :: nat) \<in> {9, 10, 11, 12, 13, 28, 29, 30, 31, 32, 133, 160}"
  shows "c \<in> set py_whitespace"
proof -
  have e: "\<forall>n \<in> {9, 10, 11, 12, 13, 28, 29, 30, 31, 32, 133, 160 :: nat}.
      (char_of n :: char) \<in> set py_whitespace"
    by code_simp
  then have "(char_of (of_char c :: nat) :: char) \<in> set py_whitespace" using assms by blast
  then show ?thesis by simp
qed

lemma whitespace_iff:
  "c \<in> set py_whitespace \<longleftrightarrow>
   (of_char c :: nat) \<in> {9, 10, 11, 12, 13, 28, 29, 30, 31, 32, 133, 160}"
  using whitespace_codes whitespace_of_code by blast

lemma of_char_lower_char:
  "(of_char (lower_char c) :: nat) = (if is_upper c then of_char c + 32 else of_char c)"
  using of_char_lower [of c] by (simp add: lower_char_def)

lemma py_lower_no_upper: "\<forall>c \<in> set (py_lower s). \<not> is_upper c"
  by (auto simp: py_lower_def lower_not_upper)

lemma py_lower_id: "\<forall>c \<in> set s. \<not> is_upper c \<Longrightarrow> py_lower s = s"
  by (induction s) (simp_all add: py_lower_def lower_char_def)

lemma py_strip_decomp:
  "\<exists>pre suf. s = pre @ py_strip s @ suf \<and>
     set pre \<subseteq> set py_whitespace \<and> set suf \<subseteq> set py_whitespace"
proof -
  define P where "P = (\<lambda>c. c \<in> set py_whitespace)"
  define t where "t = dropWhile P s"
  have st: "py_strip s = rev (dropWhile P (rev t))"
    by (simp add: py_strip_def py_lstrip_def py_rstrip_def P_def t_def)
  have a: "s = takeWhile P s @ t" by (simp add: t_def)
  have "rev (dropWhile P (rev t)) @ rev (takeWhile P (rev t)) =
      rev (takeWhile P (rev t) @ dropWhile P (rev t))" by (simp only: rev_append)
  also have "\<dots> = t" by (simp only: takeWhile_dropWhile_id rev_rev_ident)
  finally have b: "t = rev (dropWhile P (rev t)) @ rev (takeWhile P (rev t))" by simp
  have s: "s = takeWhile P s @ py_strip s @ rev (takeWhile P (rev t))"
    using a b st by simp
  have p1: "set (takeWhile P s) \<subseteq> set py_whitespace"
    using set_takeWhileD [of _ P s] by (auto simp: P_def)
  have p2: "set (rev (takeWhile P (rev t))) \<subseteq> set py_whitespace"
    using set_takeWhileD [of _ P "rev t"] by (auto simp: P_def)
  show ?thesis using s p1 p2 by blast
qed

lemma py_strip_subset: "set (py_strip s) \<subseteq> set s"
proof -
  obtain pre suf where "s = pre @ py_strip s @ suf" using py_strip_decomp [of s] by blast
  then have "set s = set pre \<union> set (py_strip s) \<union> set suf"
    by (metis set_append sup_assoc)
  then show ?thesis by blast
qed

lemma py_strip_ends:
  assumes ne: "py_strip s \<noteq> []"
  shows "hd (py_strip s) \<notin> set py_whitespace \<and> last (py_strip s) \<notin> set py_whitespace"
proof -
  define P where "P = (\<lambda>c. c \<in> set py_whitespace)"
  define t where "t = dropWhile P s"
  define u where "u = dropWhile P (rev t)"
  have st: "py_strip s = rev u"
    by (simp add: py_strip_def py_lstrip_def py_rstrip_def P_def t_def u_def)
  have un: "u \<noteq> []" using ne st by simp
  then have tn: "t \<noteq> []" by (auto simp: u_def)
  have nh: "\<not> P (hd t)" using tn unfolding t_def using hd_dropWhile [of P s] by blast
  have "rev t \<noteq> []" "\<not> P (last (rev t))" using tn nh by (simp_all add: last_rev)
  then have u: "u \<noteq> [] \<and> last u = last (rev t)" unfolding u_def by (rule dropWhile_last)
  then have "hd (rev u) = hd t" using tn by (simp add: hd_rev last_rev)
  then have h: "\<not> P (hd (rev u))" using nh by simp
  have "\<not> P (hd u)" using un unfolding u_def using hd_dropWhile [of P "rev t"] by blast
  then have l: "\<not> P (last (rev u))" using un by (simp add: last_rev)
  show ?thesis using h l unfolding st by (simp add: P_def)
qed

lemma py_strip_id:
  assumes "s = [] \<or> (hd s \<notin> set py_whitespace \<and> last s \<notin> set py_whitespace)"
  shows "py_strip s = s"
proof (cases "s = []")
  case True
  then show ?thesis by (simp add: py_strip_def py_lstrip_def py_rstrip_def)
next
  case False
  define P where "P = (\<lambda>c. c \<in> set py_whitespace)"
  have h: "\<not> P (hd s)" and l: "\<not> P (last s)" using assms False by (simp_all add: P_def)
  have k: "dropWhile P xs = xs" if "xs \<noteq> []" and "\<not> P (hd xs)" for xs
    using that by (cases xs) auto
  have a: "dropWhile P s = s" using False h by (rule k)
  have "rev s \<noteq> []" and "\<not> P (hd (rev s))" using False l by (simp_all add: hd_rev)
  then have b: "dropWhile P (rev s) = rev s" by (rule k)
  have "py_strip s = rev (dropWhile P (rev (dropWhile P s)))"
    by (simp add: py_strip_def py_lstrip_def py_rstrip_def P_def)
  then show ?thesis using a b by simp
qed

lemma normalised_unchanged_iff:
  "py_strip (py_lower a) = a \<longleftrightarrow>
     (\<forall>ch \<in> set a. \<not> is_upper ch) \<and>
     (a = [] \<or> (hd a \<notin> set py_whitespace \<and> last a \<notin> set py_whitespace))"
proof
  assume e: "py_strip (py_lower a) = a"
  have "\<forall>ch \<in> set (py_strip (py_lower a)). \<not> is_upper ch"
    using py_strip_subset [of "py_lower a"] py_lower_no_upper [of a] by blast
  then have u: "\<forall>ch \<in> set a. \<not> is_upper ch" using e by simp
  have "a = [] \<or> (hd a \<notin> set py_whitespace \<and> last a \<notin> set py_whitespace)"
    using py_strip_ends [of "py_lower a"] e by auto
  then show "(\<forall>ch \<in> set a. \<not> is_upper ch) \<and>
     (a = [] \<or> (hd a \<notin> set py_whitespace \<and> last a \<notin> set py_whitespace))"
    using u by blast
next
  assume h: "(\<forall>ch \<in> set a. \<not> is_upper ch) \<and>
     (a = [] \<or> (hd a \<notin> set py_whitespace \<and> last a \<notin> set py_whitespace))"
  then have "py_lower a = a" using py_lower_id by blast
  then show "py_strip (py_lower a) = a" using h py_strip_id [of a] by simp
qed

lemma py_strip_idem: "py_strip (py_strip s) = py_strip s"
proof -
  define P where "P = (\<lambda>c. c \<in> set py_whitespace)"
  define t where "t = dropWhile P s"
  define u where "u = dropWhile P (rev t)"
  have st: "py_strip s = rev u"
    by (simp add: py_strip_def py_lstrip_def py_rstrip_def P_def t_def u_def)
  have hd: "dropWhile P (rev u) = rev u"
  proof (cases "t = []")
    case True
    then show ?thesis by (simp add: u_def)
  next
    case False
    then have nh: "\<not> P (hd t)" unfolding t_def using hd_dropWhile [of P s] by blast
    have "rev t \<noteq> []" "\<not> P (last (rev t))" using False nh by (simp_all add: last_rev)
    then have u: "u \<noteq> [] \<and> last u = last (rev t)" unfolding u_def by (rule dropWhile_last)
    then have "hd (rev u) = hd t" using False by (simp add: hd_rev last_rev)
    then have "\<not> P (hd (rev u))" using nh by simp
    moreover have "rev u \<noteq> []" using u by simp
    ultimately show ?thesis by (cases "rev u") auto
  qed
  have "py_strip (rev u) = rev (dropWhile P (rev (dropWhile P (rev u))))"
    by (simp add: py_strip_def py_lstrip_def py_rstrip_def P_def)
  also have "\<dots> = rev (dropWhile P (rev (rev u)))" using hd by simp
  also have "\<dots> = rev u" by (simp add: u_def)
  finally show ?thesis using st by simp
qed

lemma normalise_once:
  "py_strip (py_lower (py_lower (py_strip r))) = py_strip (py_lower r) \<and>
   py_lower (py_strip r) = py_strip (py_lower r)"
  by (simp add: py_lower_idem py_strip_lower py_strip_idem)

lemma parse_minus_six: "parse_tz_offset_to_delta ''-06:00'' = Inr (- 21600000000)"
  by code_simp


subsection \<open>The relative window\<close>

text \<open>
  C4. For every instant \<open>now\<close>, target \<open>T = TARGET_HOURS\<close> and tolerance
  \<open>W = WINDOW_TOLERANCE_H\<close>, the relative window is exactly
  \<open>(now - (T + W) h, now - (T - W) h)\<close>, an hour being 3600000000 microseconds. Hence its
  width is \<open>2 W\<close> hours whatever the configuration, moving \<open>now\<close> by \<open>dt\<close> moves both
  bounds by \<open>dt\<close>, and when \<open>T < W\<close> the end lies after \<open>now\<close> and is returned as it
  is; \<open>compute_window\<close> hands the pair on unchanged in relative mode.
\<close>

theorem relative_window:
  "stage_window_bounds_relative cfg now =
     (now - (TARGET_HOURS cfg + WINDOW_TOLERANCE_H cfg) * 3600000000,
      now - (TARGET_HOURS cfg - WINDOW_TOLERANCE_H cfg) * 3600000000) \<and>
   snd (stage_window_bounds_relative cfg now) - fst (stage_window_bounds_relative cfg now) =
     2 * WINDOW_TOLERANCE_H cfg * 3600000000 \<and>
   stage_window_bounds_relative cfg (now + dt) =
     (fst (stage_window_bounds_relative cfg now) + dt,
      snd (stage_window_bounds_relative cfg now) + dt) \<and>
   (TARGET_HOURS cfg < WINDOW_TOLERANCE_H cfg \<longrightarrow>
      now < snd (stage_window_bounds_relative cfg now)) \<and>
   compute_window (cfg\<lparr>FIXED_8AM_MODE := False\<rparr>) now =
     Inr (now - (TARGET_HOURS cfg + WINDOW_TOLERANCE_H cfg) * 3600000000,
          now - (TARGET_HOURS cfg - WINDOW_TOLERANCE_H cfg) * 3600000000, ''relative'')"
  by (simp add: stage_window_bounds_relative_def compute_window_def timedelta_of_def Let_def
      algebra_simps)

theorem relative_window_witness:
  "stage_window_bounds_relative cfg_24h (instant 20000 12 0 0 0) =
     (instant 19999 6 0 0 0, instant 19999 18 0 0 0) \<and>
   instant 20000 12 0 0 0 <
     snd (stage_window_bounds_relative cfg_now_before_window (instant 20000 12 0 0 0)) \<and>
   snd (stage_window_bounds_relative cfg_now_before_window (instant 20000 12 0 0 0)) =
     instant 20000 18 0 0 0"
  using relative_window [of cfg_24h "instant 20000 12 0 0 0" 0]
    relative_window [of cfg_now_before_window "instant 20000 12 0 0 0" 0]
  by (simp add: cfg_24h_def cfg_now_before_window_def instant_def)


subsection \<open>The fixed local day\<close>

text \<open>
  C5, as amended. For every instant \<open>now\<close>, target hours \<open>T\<close> and offset string that
  \<open>parse_tz_offset_to_delta\<close> reads as \<open>offset\<close>: with \<open>days_back = max 1 (T div 24)\<close>
  (1, 2 and 3 for 24, 48 and 72 hours) and \<open>d\<close> the local date of \<open>now\<close> minus
  \<open>days_back\<close> days, the result is the pair of UTC instants of 00:00:00.000000 and
  23:59:59.999999 of the local day \<open>d\<close> (not 23:59:59.999); it is the same for any two
  instants \<open>now\<close> of one local calendar day.
\<close>

theorem fixed_local_day_window:
  assumes "parse_tz_offset_to_delta tz = Inr offset"
  shows
  "day_bounds_utc_for_target_fixed_8am now T tz =
     Inr ((date_of (now + offset) - max 1 (T div 24)) * 86400000000 - offset,
          (date_of (now + offset) - max 1 (T div 24)) * 86400000000 + 86399999999 - offset) \<and>
   (date_of (now' + offset) = date_of (now + offset) \<longrightarrow>
      day_bounds_utc_for_target_fixed_8am now' T tz =
      day_bounds_utc_for_target_fixed_8am now T tz) \<and>
   max 1 ((24::int) div 24) = 1 \<and> max 1 ((48::int) div 24) = 2 \<and> max 1 ((72::int) div 24) = 3"
  using assms
  by (simp add: day_bounds_utc_for_target_fixed_8am_def combine_min_def combine_max_def Let_def)

theorem fixed_local_day_window_witness:
  "day_bounds_utc_for_target_fixed_8am (instant 20000 9 0 0 0) 24 ''-06:00'' =
     Inr (instant 19999 6 0 0 0, instant 20000 5 59 59 999999) \<and>
   day_bounds_utc_for_target_fixed_8am (instant 20001 5 59 0 0) 24 ''-06:00'' =
     day_bounds_utc_for_target_fixed_8am (instant 20000 9 0 0 0) 24 ''-06:00'' \<and>
   day_bounds_utc_for_target_fixed_8am (instant 20000 9 0 0 0) 72 ''-06:00'' =
     Inr (instant 19997 6 0 0 0, instant 19998 5 59 59 999999)"
  using fixed_local_day_window [OF parse_minus_six, of "instant 20000 9 0 0 0" 24 "instant 20001 5 59 0 0"]
    fixed_local_day_window [OF parse_minus_six, of "instant 20000 9 0 0 0" 72 "instant 20001 5 59 0 0"]
  by (simp add: instant_def date_of_def)

theorem fixed_local_day_window_counterexample:
  "day_bounds_utc_for_target_fixed_8am (instant 20000 9 0 0 0) 24 ''-06:00'' =
     Inr (instant 19999 6 0 0 0, instant 20000 5 59 59 999999) \<and>
   day_bounds_utc_for_target_fixed_8am (instant 20000 9 0 0 0) 24 ''-06:00'' \<noteq>
     Inr (instant 19999 6 0 0 0, instant 20000 5 59 59 999000)"
  by (simp add: day_bounds_utc_for_target_fixed_8am_def parse_minus_six combine_min_def
      combine_max_def instant_def date_of_def Let_def)


subsection \<open>The candidate query\<close>

lemma sql_distinct_subset: "set (sql_distinct eq seen xs) \<subseteq> set xs"
  by (induction xs arbitrary: seen) auto

lemma sql_distinct_not_seen:
  "(\<And>x. eq x x) \<Longrightarrow> x \<in> set (sql_distinct eq seen xs) \<Longrightarrow> x \<notin> set seen"
proof (induction xs arbitrary: seen)
  case Nil
  then show ?case by simp
next
  case (Cons y ys)
  show ?case
  proof (cases "list_ex (\<lambda>s. eq s y) seen")
    case True
    then show ?thesis using Cons by simp
  next
    case False
    then have ny: "y \<notin> set seen" using Cons.prems(1) by (auto simp: list_ex_iff)
    from False Cons.prems(2) have "x = y \<or> x \<in> set (sql_distinct eq (seen @ [y]) ys)" by simp
    then show ?thesis
    proof
      assume "x = y" then show ?thesis using ny by simp
    next
      assume "x \<in> set (sql_distinct eq (seen @ [y]) ys)"
      then have "x \<notin> set (seen @ [y])" using Cons.IH Cons.prems(1) by blast
      then show ?thesis by simp
    qed
  qed
qed

lemma sql_distinct_distinct:
  "(\<And>x. eq x x) \<Longrightarrow> distinct (sql_distinct eq seen xs)"
proof (induction xs arbitrary: seen)
  case Nil
  then show ?case by simp
next
  case (Cons y ys)
  have "y \<notin> set (sql_distinct eq (seen @ [y]) ys)"
    using sql_distinct_not_seen [of eq y "seen @ [y]" ys] Cons.prems by auto
  then show ?case using Cons by simp
qed

lemma inner_joins_iff:
  "(e, wl, it) \<in> set (inner_joins st) \<longleftrightarrow>
     e \<in> set (wishlist_guest_emails st) \<and> wl \<in> set (tinvwl_lists st) \<and>
     wl = ge_wishlist_id e \<and> it \<in> set (tinvwl_items st) \<and> it_wishlist_id it = wl"
  by (auto simp: inner_joins_def)

lemma filter_left_join:
  "filter (where_clause eng tz lo hi) (left_join_log eng key lg rows) =
     map (\<lambda>r. (r, None))
       (filter (\<lambda>r. window_ok eng tz lo hi (fst r) \<and> \<not> list_ex (log_same_on eng key r) lg) rows)"
proof (induction rows)
  case Nil
  then show ?case by (simp add: left_join_log_def)
next
  case (Cons r rows)
  obtain e wl it where r: "r = (e, wl, it)" by (cases r) auto
  have tl: "left_join_log eng key lg (r # rows) =
      (let ms = filter (log_same_on eng key r) lg
       in if ms = [] then [(r, None)] else map (\<lambda>l. (r, Some l)) ms) @ left_join_log eng key lg rows"
    by (simp add: left_join_log_def)
  have none: "filter (where_clause eng tz lo hi) (map (\<lambda>l. (r, Some l)) ms) = []" for ms
    by (induction ms) (simp_all add: where_clause_def r)
  have ex: "(filter (log_same_on eng key r) lg = []) = (\<not> list_ex (log_same_on eng key r) lg)"
    by (auto simp: list_ex_iff filter_empty_conv)
  show ?case
  proof (cases "filter (log_same_on eng key r) lg = []")
    case True
    then show ?thesis using Cons ex tl
      by (simp add: where_clause_def window_ok_def r)
  next
    case False
    then show ?thesis using Cons ex tl none by (simp add: Let_def)
  qed
qed

lemma log_same_on_matches:
  "list_ex (log_same_on eng key r) lg = log_matches eng lg (ge_email (fst r)) (fst (snd r)) key"
  by (cases r) (auto simp: log_same_on_def log_matches_def list_ex_iff)

lemma select_candidates_eq:
  "0 \<le> MAX_BATCH cfg \<Longrightarrow>
   select_candidates eng cfg st start_utc end_utc =
     Inr (take (nat (MAX_BATCH cfg))
            (sql_distinct (row_eq eng) []
               (candidate_pairs eng cfg st (strftime_seconds start_utc) (strftime_seconds end_utc))))"
proof -
  have m: "((\<lambda>((e, wl, it), log_same). (ge_email e, wl)) \<circ> (\<lambda>r. (r, None))) =
           (\<lambda>r :: guest_email \<times> int \<times> wl_item. (ge_email (fst r), fst (snd r)))"
    by (auto simp: fun_eq_iff)
  assume "0 \<le> MAX_BATCH cfg"
  then show ?thesis
    by (simp add: select_candidates_def filter_left_join m candidate_pairs_def log_same_on_matches)
qed

lemma select_candidates_neg:
  "MAX_BATCH cfg < 0 \<Longrightarrow> select_candidates eng cfg st start_utc end_utc = Inl DatabaseError"
  by (simp add: select_candidates_def)

lemma candidate_pairs_mem:
  "(email, wid) \<in> set (candidate_pairs eng cfg st lo hi) \<Longrightarrow>
     (\<exists>e \<in> set (wishlist_guest_emails st). ge_email e = email \<and> ge_wishlist_id e = wid \<and>
        window_ok eng (LOCAL_TZ_OFFSET cfg) lo hi e) \<and>
     wid \<in> set (tinvwl_lists st) \<and>
     (\<exists>it \<in> set (tinvwl_items st). it_wishlist_id it = wid) \<and>
     \<not> log_matches eng (wishlist_email_log st) email wid (CAMPAIGN_KEY cfg)"
  by (auto simp: candidate_pairs_def inner_joins_iff)

lemma select_candidates_subset:
  assumes sel: "select_candidates eng cfg st start_utc end_utc = Inr rows"
  shows "set rows \<subseteq>
    set (candidate_pairs eng cfg st (strftime_seconds start_utc) (strftime_seconds end_utc))"
proof -
  have nn: "0 \<le> MAX_BATCH cfg"
  proof (rule ccontr)
    assume "\<not> 0 \<le> MAX_BATCH cfg"
    then show False using sel by (simp add: select_candidates_neg)
  qed
  let ?c = "candidate_pairs eng cfg st (strftime_seconds start_utc) (strftime_seconds end_utc)"
  have rows: "rows = take (nat (MAX_BATCH cfg)) (sql_distinct (row_eq eng) [] ?c)"
    using sel select_candidates_eq [OF nn, of eng st start_utc end_utc] by simp
  have "set rows \<subseteq> set (sql_distinct (row_eq eng) [] ?c)"
    unfolding rows by (rule set_take_subset)
  also have "\<dots> \<subseteq> set ?c" by (rule sql_distinct_subset)
  finally show ?thesis .
qed

lemma strftime_seconds_bounds:
  "strftime_seconds t \<le> t \<and> t - 1000000 < strftime_seconds t"
  unfolding strftime_seconds_def by (simp add: algebra_simps) presburger

lemma equivp_engine_ci: "equivp (str_eq engine_ci)"
  by (rule equivpI) (auto simp: reflp_def symp_def transp_def ci_pad_eq_def engine_ci_def)

lemma reflp_engine_ci: "reflp (str_eq engine_ci)"
  using equivp_engine_ci by (simp add: equivp_reflp_symp_transp)

lemma select_sample:
  "select_candidates engine_ci cfg_24h store_sample start_sample end_sample = Inr rows_sample"
  by code_simp


text \<open>
  What the query guarantees. On a store whose string comparison is reflexive,
  \<open>select_candidates\<close> returns a result for every non-negative \<open>MAX_BATCH\<close>, and every
  result it returns has at most \<open>MAX_BATCH\<close> rows, pairwise distinct. Each returned pair
  is the e-mail and wishlist of a guest row whose creation time, converted by the store
  from the local offset to UTC, lies between the start and the end of the window
  \<^emph>\<open>as truncated to whole seconds\<close> (so it is at most the end, and less than a second
  before the start); the wishlist has an item; and the log holds no row for the pair and
  the campaign key, neither under the store's comparison nor literally.
\<close>

lemma select_candidates_truncated_window:
  assumes rf: "reflp (str_eq eng)"
  shows
  "(0 \<le> MAX_BATCH cfg \<longrightarrow> (\<exists>rows. select_candidates eng cfg st start_utc end_utc = Inr rows)) \<and>
   (\<forall>rows. select_candidates eng cfg st start_utc end_utc = Inr rows \<longrightarrow>
      int (length rows) \<le> MAX_BATCH cfg \<and> distinct rows \<and>
      (\<forall>(email, wid) \<in> set rows.
         (\<exists>e \<in> set (wishlist_guest_emails st). ge_email e = email \<and> ge_wishlist_id e = wid \<and>
            (\<exists>t. CONVERT_TZ_utc eng (ge_created_at e) (LOCAL_TZ_OFFSET cfg) = Some t \<and>
                 strftime_seconds start_utc \<le> t \<and> t \<le> strftime_seconds end_utc \<and>
                 start_utc - 1000000 < t \<and> t \<le> end_utc)) \<and>
         (\<exists>it \<in> set (tinvwl_items st). it_wishlist_id it = wid) \<and>
         (\<forall>l \<in> set (wishlist_email_log st).
            \<not> (str_eq eng (log_email l) email \<and> log_wishlist_id l = wid \<and>
               str_eq eng (log_campaign_key l) (CAMPAIGN_KEY cfg))) \<and>
         (\<forall>l \<in> set (wishlist_email_log st).
            \<not> (log_email l = email \<and> log_wishlist_id l = wid \<and>
               log_campaign_key l = CAMPAIGN_KEY cfg))))"
proof -
  have refl: "str_eq eng x x" for x using rf by (rule reflpD)
  show ?thesis
  proof (intro conjI allI impI)
  assume "0 \<le> MAX_BATCH cfg"
  then show "\<exists>rows. select_candidates eng cfg st start_utc end_utc = Inr rows"
    by (simp add: select_candidates_eq)
next
  fix rows
  assume sel: "select_candidates eng cfg st start_utc end_utc = Inr rows"
  have nn: "0 \<le> MAX_BATCH cfg"
  proof (rule ccontr)
    assume "\<not> 0 \<le> MAX_BATCH cfg"
    then show False using sel by (simp add: select_candidates_neg)
  qed
  let ?lo = "strftime_seconds start_utc" and ?hi = "strftime_seconds end_utc"
  let ?c = "candidate_pairs eng cfg st ?lo ?hi"
  have rows: "rows = take (nat (MAX_BATCH cfg)) (sql_distinct (row_eq eng) [] ?c)"
    using sel select_candidates_eq [OF nn, of eng st start_utc end_utc] by simp
  show "int (length rows) \<le> MAX_BATCH cfg" using rows nn by simp
  have req: "\<And>x. row_eq eng x x" by (simp add: row_eq_def refl)
  show "distinct rows" using rows sql_distinct_distinct [of "row_eq eng" "[]" ?c] req by simp
  have sub: "set rows \<subseteq> set ?c"
  proof -
    have "set rows \<subseteq> set (sql_distinct (row_eq eng) [] ?c)"
      unfolding rows by (rule set_take_subset)
    also have "\<dots> \<subseteq> set ?c" by (rule sql_distinct_subset)
    finally show ?thesis .
  qed
  have main: "(\<exists>e \<in> set (wishlist_guest_emails st). ge_email e = email \<and> ge_wishlist_id e = wid \<and>
            (\<exists>t. CONVERT_TZ_utc eng (ge_created_at e) (LOCAL_TZ_OFFSET cfg) = Some t \<and>
                 strftime_seconds start_utc \<le> t \<and> t \<le> strftime_seconds end_utc \<and>
                 start_utc - 1000000 < t \<and> t \<le> end_utc)) \<and>
         (\<exists>it \<in> set (tinvwl_items st). it_wishlist_id it = wid) \<and>
         (\<forall>l \<in> set (wishlist_email_log st).
            \<not> (str_eq eng (log_email l) email \<and> log_wishlist_id l = wid \<and>
               str_eq eng (log_campaign_key l) (CAMPAIGN_KEY cfg))) \<and>
         (\<forall>l \<in> set (wishlist_email_log st).
            \<not> (log_email l = email \<and> log_wishlist_id l = wid \<and>
               log_campaign_key l = CAMPAIGN_KEY cfg))"
    if mem: "(email, wid) \<in> set rows" for email wid
  proof -
    have c: "(email, wid) \<in> set ?c" using mem sub by blast
    note m = candidate_pairs_mem [OF c]
    from m obtain e where e: "e \<in> set (wishlist_guest_emails st)" "ge_email e = email"
      "ge_wishlist_id e = wid" "window_ok eng (LOCAL_TZ_OFFSET cfg) ?lo ?hi e" by blast
    from e(4) obtain t where t: "CONVERT_TZ_utc eng (ge_created_at e) (LOCAL_TZ_OFFSET cfg) = Some t"
      "?lo \<le> t" "t \<le> ?hi"
      by (auto simp: window_ok_def split: option.splits)
    have b: "start_utc - 1000000 < t \<and> t \<le> end_utc"
      using t(2,3) strftime_seconds_bounds [of start_utc] strftime_seconds_bounds [of end_utc]
      by linarith
    have nl: "\<not> log_matches eng (wishlist_email_log st) email wid (CAMPAIGN_KEY cfg)"
      using m by blast
    have i: "\<exists>it \<in> set (tinvwl_items st). it_wishlist_id it = wid" using m by blast
    have n1: "\<forall>l \<in> set (wishlist_email_log st).
            \<not> (str_eq eng (log_email l) email \<and> log_wishlist_id l = wid \<and>
               str_eq eng (log_campaign_key l) (CAMPAIGN_KEY cfg))"
      using nl by (auto simp: log_matches_def list_ex_iff)
    have n2: "\<forall>l \<in> set (wishlist_email_log st).
            \<not> (log_email l = email \<and> log_wishlist_id l = wid \<and>
               log_campaign_key l = CAMPAIGN_KEY cfg)"
    proof (intro ballI notI)
      fix l assume l: "l \<in> set (wishlist_email_log st)"
        and h: "log_email l = email \<and> log_wishlist_id l = wid \<and> log_campaign_key l = CAMPAIGN_KEY cfg"
      have "str_eq eng (log_email l) email \<and> log_wishlist_id l = wid \<and>
            str_eq eng (log_campaign_key l) (CAMPAIGN_KEY cfg)"
        using h refl by auto
      then show False using n1 l by blast
    qed
    have w: "\<exists>e \<in> set (wishlist_guest_emails st). ge_email e = email \<and> ge_wishlist_id e = wid \<and>
            (\<exists>t. CONVERT_TZ_utc eng (ge_created_at e) (LOCAL_TZ_OFFSET cfg) = Some t \<and>
                 strftime_seconds start_utc \<le> t \<and> t \<le> strftime_seconds end_utc \<and>
                 start_utc - 1000000 < t \<and> t \<le> end_utc)"
      using e(1,2,3) t b by blast
    show ?thesis using w i n1 n2 by (intro conjI)
  qed
  show "\<forall>(email, wid) \<in> set rows.
         (\<exists>e \<in> set (wishlist_guest_emails st). ge_email e = email \<and> ge_wishlist_id e = wid \<and>
            (\<exists>t. CONVERT_TZ_utc eng (ge_created_at e) (LOCAL_TZ_OFFSET cfg) = Some t \<and>
                 strftime_seconds start_utc \<le> t \<and> t \<le> strftime_seconds end_utc \<and>
                 start_utc - 1000000 < t \<and> t \<le> end_utc)) \<and>
         (\<exists>it \<in> set (tinvwl_items st). it_wishlist_id it = wid) \<and>
         (\<forall>l \<in> set (wishlist_email_log st).
            \<not> (str_eq eng (log_email l) email \<and> log_wishlist_id l = wid \<and>
               str_eq eng (log_campaign_key l) (CAMPAIGN_KEY cfg))) \<and>
         (\<forall>l \<in> set (wishlist_email_log st).
            \<not> (log_email l = email \<and> log_wishlist_id l = wid \<and>
               log_campaign_key l = CAMPAIGN_KEY cfg))"
  proof (rule ballI)
    fix p assume p: "p \<in> set rows"
    obtain email wid where pe: "p = (email, wid)" by (cases p) auto
    show "case p of (email, wid) \<Rightarrow>
         (\<exists>e \<in> set (wishlist_guest_emails st). ge_email e = email \<and> ge_wishlist_id e = wid \<and>
            (\<exists>t. CONVERT_TZ_utc eng (ge_created_at e) (LOCAL_TZ_OFFSET cfg) = Some t \<and>
                 strftime_seconds start_utc \<le> t \<and> t \<le> strftime_seconds end_utc \<and>
                 start_utc - 1000000 < t \<and> t \<le> end_utc)) \<and>
         (\<exists>it \<in> set (tinvwl_items st). it_wishlist_id it = wid) \<and>
         (\<forall>l \<in> set (wishlist_email_log st).
            \<not> (str_eq eng (log_email l) email \<and> log_wishlist_id l = wid \<and>
               str_eq eng (log_campaign_key l) (CAMPAIGN_KEY cfg))) \<and>
         (\<forall>l \<in> set (wishlist_email_log st).
            \<not> (log_email l = email \<and> log_wishlist_id l = wid \<and>
               log_campaign_key l = CAMPAIGN_KEY cfg))"
      unfolding pe prod.case using main [of email wid] p pe by blast
  qed
qed
qed

lemma select_candidates_truncated_window_sample:
  "select_candidates engine_ci cfg_24h store_sample start_sample end_sample = Inr rows_sample \<and>
   int (length rows_sample) \<le> MAX_BATCH cfg_24h \<and> distinct rows_sample"
  using select_candidates_truncated_window [OF reflp_engine_ci, of cfg_24h store_sample start_sample end_sample]
    select_sample by simp

text \<open>
  C3, on a concrete store. The worker's clock reads 18:00:00.5 UTC of day 20000, so the
  relative window of the 24 hour stage (tolerance 6 hours) is 12:00:00.5 of day 19999 to
  00:00:00.5 of day 20000. Ana's guest row, the only one of wishlist 7, was created at
  06:00:00 local time, which the store converts to 12:00:00 UTC: half a second before the
  start of the window and so outside \<open>[start_utc, end_utc]\<close>. The query receives the
  bounds through \<open>strftime\<close>, without their microseconds, and returns her pair.
\<close>

theorem select_candidates_before_window_start:
  "stage_window_bounds_relative cfg_24h (now_utc env_ok) = (start_sample, end_sample) \<and>
   start_sample = instant 19999 12 0 0 500000 \<and>
   end_sample = instant 20000 0 0 0 500000 \<and>
   wishlist_guest_emails store_sample = [guest_ana, guest_bea, guest_cy] \<and>
   ge_email guest_ana = '' Ana@Example.com'' \<and> ge_wishlist_id guest_ana = 7 \<and>
   ge_wishlist_id guest_bea = 8 \<and> ge_wishlist_id guest_cy = 9 \<and>
   CONVERT_TZ_utc engine_ci (ge_created_at guest_ana) (LOCAL_TZ_OFFSET cfg_24h) =
     Some (instant 19999 12 0 0 0) \<and>
   instant 19999 12 0 0 0 < start_sample \<and>
   strftime_seconds start_sample = instant 19999 12 0 0 0 \<and>
   select_candidates engine_ci cfg_24h store_sample start_sample end_sample =
     Inr [('' Ana@Example.com'', 7), (''bea@example.com'', 8)]"
  by code_simp

subsection \<open>The sent log and the query\<close>

lemma upsert_log_matches:
  assumes sy: "symp (str_eq eng)" and tr: "transp (str_eq eng)"
  shows "log_matches eng (upsert_log eng lg r) em w k \<longleftrightarrow>
     log_matches eng lg em w k \<or>
     (str_eq eng (log_email r) em \<and> log_wishlist_id r = w \<and> str_eq eng (log_campaign_key r) k)"
proof (induction lg)
  case Nil
  then show ?case by (simp add: log_matches_def)
next
  case (Cons l ls)
  have se_sym: "str_eq eng x y \<Longrightarrow> str_eq eng y x" for x y using sy by (rule sympD)
  have se_trans: "str_eq eng x y \<Longrightarrow> str_eq eng y z \<Longrightarrow> str_eq eng x z" for x y z
    using tr by (rule transpD)
  let ?m = "\<lambda>x. str_eq eng (log_email x) em \<and> log_wishlist_id x = w \<and> str_eq eng (log_campaign_key x) k"
  show ?case
  proof (cases "duplicate_key eng l r")
    case True
    let ?l' = "l\<lparr>log_campaign_key := log_campaign_key r, log_sent_at := log_sent_at r\<rparr>"
    from True have d: "str_eq eng (log_email l) (log_email r)" "log_wishlist_id l = log_wishlist_id r"
      "str_eq eng (log_campaign_key l) (log_campaign_key r)" by (simp_all add: duplicate_key_def)
    have "?m ?l' \<longleftrightarrow> ?m l \<or> ?m r"
    proof
      assume h: "?m ?l'"
      then have "str_eq eng (log_campaign_key l) k" using d(3) se_trans by auto
      then show "?m l \<or> ?m r" using h by simp
    next
      assume "?m l \<or> ?m r"
      then show "?m ?l'"
      proof
        assume h: "?m l"
        have "str_eq eng (log_campaign_key r) k" using h d(3) se_sym se_trans by blast
        then show ?thesis using h by simp
      next
        assume h: "?m r"
        have "str_eq eng (log_email l) em" using h d(1) se_trans by blast
        then show ?thesis using h d(2) by simp
      qed
    qed
    then show ?thesis using True by (auto simp: log_matches_def)
  next
    case False
    then show ?thesis using Cons by (auto simp: log_matches_def)
  qed
qed

lemma inner_joins_insert_log [simp]:
  "inner_joins (insert_log eng ts st a s c) = inner_joins st"
proof -
  have "wishlist_guest_emails (insert_log eng ts st a s c) = wishlist_guest_emails st"
    "tinvwl_lists (insert_log eng ts st a s c) = tinvwl_lists st"
    "tinvwl_items (insert_log eng ts st a s c) = tinvwl_items st"
    by (simp_all add: insert_log_def)
  then show ?thesis unfolding inner_joins_def by (simp cong: if_cong)
qed

lemma candidate_pairs_insert_log:
  assumes sy: "symp (str_eq eng)" and tr: "transp (str_eq eng)"
  shows "candidate_pairs eng cfg (insert_log eng ts st a s c) lo hi =
     filter (\<lambda>p. \<not> (str_eq eng (py_strip (py_lower a)) (fst p) \<and> s = snd p \<and>
                      str_eq eng c (CAMPAIGN_KEY cfg)))
       (candidate_pairs eng cfg st lo hi)"
proof -
  have lg: "wishlist_email_log (insert_log eng ts st a s c) =
      upsert_log eng (wishlist_email_log st)
        \<lparr>log_email = py_strip (py_lower a), log_wishlist_id = s,
         log_campaign_key = c, log_sent_at = ts\<rparr>"
    by (simp add: insert_log_def)
  have m: "log_matches eng (upsert_log eng (wishlist_email_log st)
        \<lparr>log_email = py_strip (py_lower a), log_wishlist_id = s,
         log_campaign_key = c, log_sent_at = ts\<rparr>) em w k \<longleftrightarrow>
     log_matches eng (wishlist_email_log st) em w k \<or>
     (str_eq eng (py_strip (py_lower a)) em \<and> s = w \<and> str_eq eng c k)" for em w k
    using upsert_log_matches [of eng "wishlist_email_log st" _ em w k, OF sy tr] by simp
  have f: "filter (\<lambda>r. A r \<and> \<not> (B r \<or> C r)) xs = filter (\<lambda>r. \<not> C r) (filter (\<lambda>r. A r \<and> \<not> B r) xs)"
    for A B C :: "'z \<Rightarrow> bool" and xs
    by (induction xs) auto
  show ?thesis
    unfolding candidate_pairs_def lg inner_joins_insert_log m f
    by (simp add: filter_map comp_def)
qed

lemma sql_distinct_filter:
  assumes resp: "\<And>x y. eq x y \<Longrightarrow> P x = P y"
  shows "sql_distinct eq (filter P seen) (filter P xs) = filter P (sql_distinct eq seen xs)"
proof (induction xs arbitrary: seen)
  case Nil
  then show ?case by simp
next
  case (Cons x xs)
  show ?case
  proof (cases "P x")
    case False
    have "filter P (seen @ [x]) = filter P seen" using False by simp
    then show ?thesis using False Cons [of seen] Cons [of "seen @ [x]"] by simp
  next
    case True
    have "list_ex (\<lambda>s. eq s x) (filter P seen) = list_ex (\<lambda>s. eq s x) seen"
      using resp True by (auto simp: list_ex_iff)
    moreover have "filter P (seen @ [x]) = filter P seen @ [x]" using True by simp
    ultimately show ?thesis using True Cons [of seen] Cons [of "seen @ [x]"] by simp
  qed
qed

lemma take_filter_mem:
  "x \<in> set (take n xs) \<Longrightarrow> P x \<Longrightarrow> x \<in> set (take n (filter P xs))"
proof (induction xs arbitrary: n)
  case Nil
  then show ?case by simp
next
  case (Cons y ys)
  show ?case
  proof (cases n)
    case 0
    then show ?thesis using Cons.prems by simp
  next
    case (Suc m)
    show ?thesis
    proof (cases "x = y")
      case True
      then show ?thesis using Cons.prems Suc by simp
    next
      case False
      then have "x \<in> set (take m ys)" using Cons.prems Suc by simp
      then have ih: "x \<in> set (take m (filter P ys))" using Cons.IH Cons.prems(2) by blast
      have "set (take m (filter P ys)) \<subseteq> set (take (Suc m) (filter P ys))"
        by (rule set_take_subset_set_take) simp
      then show ?thesis using ih Suc by auto
    qed
  qed
qed

lemma take_filter_holds: "x \<in> set (take n (filter P xs)) \<Longrightarrow> P x"
  using set_take_subset [of n "filter P xs"] by auto

lemma duplicate_key_matches:
  "list_ex (\<lambda>l. duplicate_key eng l r) lg =
     log_matches eng lg (log_email r) (log_wishlist_id r) (log_campaign_key r)"
  by (simp add: duplicate_key_def log_matches_def)

lemma upsert_log_append:
  "\<not> log_matches eng lg (log_email r) (log_wishlist_id r) (log_campaign_key r) \<Longrightarrow>
   upsert_log eng lg r = lg @ [r]"
  unfolding duplicate_key_matches [symmetric]
  by (induction lg) auto

lemma upsert_log_has_row:
  assumes rf: "reflp (str_eq eng)"
  shows "\<exists>l \<in> set (upsert_log eng lg r).
     str_eq eng (log_email l) (log_email r) \<and> log_wishlist_id l = log_wishlist_id r \<and>
     log_campaign_key l = log_campaign_key r \<and> log_sent_at l = log_sent_at r"
proof (induction lg)
  case Nil
  then show ?case using rf by (simp add: reflpD)
next
  case (Cons l ls)
  then show ?case by (auto simp: duplicate_key_def)
qed

lemma insert_logs_matches:
  assumes sy: "symp (str_eq eng)" and tr: "transp (str_eq eng)"
  shows "log_matches eng (wishlist_email_log st) em w k \<Longrightarrow>
     log_matches eng (wishlist_email_log (insert_logs eng st calls)) em w k"
proof (induction calls arbitrary: st)
  case Nil
  then show ?case by (simp add: insert_logs_def)
next
  case (Cons call calls)
  obtain ts a s c where call: "call = (ts, a, s, c)" by (cases call) auto
  have "log_matches eng (wishlist_email_log (insert_log eng ts st a s c)) em w k"
    using Cons.prems upsert_log_matches [of eng "wishlist_email_log st" _ em w k, OF sy tr]
    by (simp add: insert_log_def)
  then have "log_matches eng (wishlist_email_log (insert_logs eng (insert_log eng ts st a s c) calls)) em w k"
    by (rule Cons.IH)
  then show ?case by (simp add: insert_logs_def call)
qed


text \<open>
  C10. \<open>insert_log\<close> does not log the e-mail as passed: the address it writes is the
  argument lowercased and then stripped. Lowercasing keeps the length and replaces each
  capital (\<open>A\<close> to \<open>Z\<close>, \<open>0xC0\<close> to \<open>0xDE\<close> without \<open>0xD7\<close>) by the character 32 places
  further on, leaving every other character alone; stripping removes a prefix and a
  suffix of white space (tab to carriage return, \<open>0x1C\<close> to \<open>0x20\<close>, \<open>0x85\<close>, \<open>0xA0\<close>)
  and what is left neither begins nor ends with white space and holds no capital. The
  logged address is the argument itself exactly when the argument has no capital and
  no white space at either end. On a store whose string comparison is an equivalence,
  every \<open>insert_log\<close> leaves a row for that address (appended with exactly that e-mail
  when no row had the key yet), with the wishlist, campaign key and timestamp given.
  The query compares the logged e-mail with the guest e-mail as stored: a pair \<open>(r, s)\<close>
  that the query returned is returned again after the write exactly when the logged
  e-mail does not compare equal to \<open>r\<close>; when it does compare equal, the pair is never
  returned again, whatever the window and whatever is logged later. The address that
  \<open>main\<close> passes, already stripped and lowercased, is logged as the raw one would be.
\<close>

theorem sent_record_email_normalization:
  assumes eqv: "equivp (str_eq eng)"
  shows
  "(\<exists>l \<in> set (wishlist_email_log (insert_log eng ts st a s c)).
      str_eq eng (log_email l) (py_strip (py_lower a)) \<and> log_wishlist_id l = s \<and>
      log_campaign_key l = c \<and> log_sent_at l = ts) \<and>
   (\<not> log_matches eng (wishlist_email_log st) (py_strip (py_lower a)) s c \<longrightarrow>
      wishlist_email_log (insert_log eng ts st a s c) =
        wishlist_email_log st @
          [\<lparr>log_email = py_strip (py_lower a), log_wishlist_id = s,
            log_campaign_key = c, log_sent_at = ts\<rparr>]) \<and>
   length (py_lower a) = length a \<and>
   (\<forall>i < length a. py_lower a ! i = lower_char (a ! i)) \<and>
   (\<forall>ch. (of_char (lower_char ch) :: nat) =
      (if is_upper ch then of_char ch + 32 else of_char ch)) \<and>
   (\<forall>ch. is_upper ch \<longleftrightarrow>
      (of_char ch :: nat) \<in> {65 .. 90} \<union> {192 .. 214} \<union> {216 .. 222}) \<and>
   (\<forall>ch. ch \<in> set py_whitespace \<longleftrightarrow>
      (of_char ch :: nat) \<in> {9, 10, 11, 12, 13, 28, 29, 30, 31, 32, 133, 160}) \<and>
   (\<exists>pre suf. py_lower a = pre @ py_strip (py_lower a) @ suf \<and>
      set pre \<subseteq> set py_whitespace \<and> set suf \<subseteq> set py_whitespace) \<and>
   (py_strip (py_lower a) \<noteq> [] \<longrightarrow>
      hd (py_strip (py_lower a)) \<notin> set py_whitespace \<and>
      last (py_strip (py_lower a)) \<notin> set py_whitespace) \<and>
   (\<forall>ch \<in> set (py_strip (py_lower a)). \<not> is_upper ch) \<and>
   (py_strip (py_lower a) = a \<longleftrightarrow>
      (\<forall>ch \<in> set a. \<not> is_upper ch) \<and>
      (a = [] \<or> (hd a \<notin> set py_whitespace \<and> last a \<notin> set py_whitespace))) \<and>
   (\<forall>rows. select_candidates eng cfg st start_utc end_utc = Inr rows \<and> (r, s) \<in> set rows \<and>
            c = CAMPAIGN_KEY cfg \<longrightarrow>
      (\<exists>rows'. select_candidates eng cfg (insert_log eng ts st a s c) start_utc end_utc = Inr rows' \<and>
         ((r, s) \<in> set rows' \<longleftrightarrow> \<not> str_eq eng (py_strip (py_lower a)) r))) \<and>
   (\<forall>rows'. str_eq eng (py_strip (py_lower a)) r \<and> c = CAMPAIGN_KEY cfg \<and>
            select_candidates eng cfg (insert_logs eng (insert_log eng ts st a s c) later)
              start_utc end_utc = Inr rows' \<longrightarrow>
      (r, s) \<notin> set rows') \<and>
   insert_log eng ts st (py_lower (py_strip r)) s c = insert_log eng ts st r s c"
proof -
  have rf: "reflp (str_eq eng)" and sy: "symp (str_eq eng)" and tr: "transp (str_eq eng)"
    using eqv by (simp_all add: equivp_reflp_symp_transp)
  have se_refl: "str_eq eng x x" for x using rf by (rule reflpD)
  have se_sym: "str_eq eng x y \<Longrightarrow> str_eq eng y x" for x y using sy by (rule sympD)
  have se_trans: "str_eq eng x y \<Longrightarrow> str_eq eng y z \<Longrightarrow> str_eq eng x z" for x y z
    using tr by (rule transpD)
  let ?row = "\<lparr>log_email = py_strip (py_lower a), log_wishlist_id = s,
            log_campaign_key = c, log_sent_at = ts\<rparr>"
  have lg: "wishlist_email_log (insert_log eng ts st a s c) =
      upsert_log eng (wishlist_email_log st) ?row"
    by (simp add: insert_log_def)
  have c1: "\<exists>l \<in> set (wishlist_email_log (insert_log eng ts st a s c)).
      str_eq eng (log_email l) (py_strip (py_lower a)) \<and> log_wishlist_id l = s \<and>
      log_campaign_key l = c \<and> log_sent_at l = ts"
    using upsert_log_has_row [of eng "wishlist_email_log st" ?row, OF rf] unfolding lg by simp
  have c2: "\<not> log_matches eng (wishlist_email_log st) (py_strip (py_lower a)) s c \<longrightarrow>
      wishlist_email_log (insert_log eng ts st a s c) = wishlist_email_log st @ [?row]"
    using upsert_log_append [of eng "wishlist_email_log st" ?row] unfolding lg by simp
  have n1: "length (py_lower a) = length a" by (simp add: py_lower_def)
  have n2: "\<forall>i < length a. py_lower a ! i = lower_char (a ! i)" by (simp add: py_lower_def)
  have n3: "\<forall>ch. (of_char (lower_char ch) :: nat) =
      (if is_upper ch then of_char ch + 32 else of_char ch)"
    using of_char_lower_char by blast
  have n4: "\<forall>ch. is_upper ch \<longleftrightarrow>
      (of_char ch :: nat) \<in> {65 .. 90} \<union> {192 .. 214} \<union> {216 .. 222}"
    by (simp add: is_upper_def Let_def)
  have n5: "\<forall>ch. ch \<in> set py_whitespace \<longleftrightarrow>
      (of_char ch :: nat) \<in> {9, 10, 11, 12, 13, 28, 29, 30, 31, 32, 133, 160}"
    using whitespace_iff by blast
  have n6: "\<exists>pre suf. py_lower a = pre @ py_strip (py_lower a) @ suf \<and>
      set pre \<subseteq> set py_whitespace \<and> set suf \<subseteq> set py_whitespace"
    by (rule py_strip_decomp)
  have n7: "py_strip (py_lower a) \<noteq> [] \<longrightarrow>
      hd (py_strip (py_lower a)) \<notin> set py_whitespace \<and>
      last (py_strip (py_lower a)) \<notin> set py_whitespace"
    using py_strip_ends [of "py_lower a"] by blast
  have n8: "\<forall>ch \<in> set (py_strip (py_lower a)). \<not> is_upper ch"
    using py_strip_subset [of "py_lower a"] py_lower_no_upper [of a] by blast
  have n9: "py_strip (py_lower a) = a \<longleftrightarrow>
      (\<forall>ch \<in> set a. \<not> is_upper ch) \<and>
      (a = [] \<or> (hd a \<notin> set py_whitespace \<and> last a \<notin> set py_whitespace))"
    by (rule normalised_unchanged_iff)
  have c3: "\<exists>rows'. select_candidates eng cfg (insert_log eng ts st a s c) start_utc end_utc = Inr rows' \<and>
         ((r, s) \<in> set rows' \<longleftrightarrow> \<not> str_eq eng (py_strip (py_lower a)) r)"
    if sel: "select_candidates eng cfg st start_utc end_utc = Inr rows" and mem: "(r, s) \<in> set rows"
      and key: "c = CAMPAIGN_KEY cfg" for rows
  proof -
    have nn: "0 \<le> MAX_BATCH cfg"
    proof (rule ccontr)
      assume "\<not> 0 \<le> MAX_BATCH cfg"
      then show False using sel by (simp add: select_candidates_neg)
    qed
    let ?lo = "strftime_seconds start_utc" and ?hi = "strftime_seconds end_utc"
    let ?C = "candidate_pairs eng cfg st ?lo ?hi"
    let ?P = "\<lambda>p. \<not> (str_eq eng (py_strip (py_lower a)) (fst p) \<and> s = snd p \<and>
                      str_eq eng c (CAMPAIGN_KEY cfg))"
    let ?n = "nat (MAX_BATCH cfg)"
    have rows: "rows = take ?n (sql_distinct (row_eq eng) [] ?C)"
      using sel select_candidates_eq [OF nn, of eng st start_utc end_utc] by simp
    have resp: "\<And>x y. row_eq eng x y \<Longrightarrow> ?P x = ?P y"
      unfolding row_eq_def using se_sym se_trans by metis
    have d: "sql_distinct (row_eq eng) [] (filter ?P ?C) = filter ?P (sql_distinct (row_eq eng) [] ?C)"
      using sql_distinct_filter [of "row_eq eng" ?P "[]" ?C, OF resp] by simp
    have after: "select_candidates eng cfg (insert_log eng ts st a s c) start_utc end_utc =
        Inr (take ?n (filter ?P (sql_distinct (row_eq eng) [] ?C)))"
      using select_candidates_eq [OF nn, of eng "insert_log eng ts st a s c" start_utc end_utc]
        candidate_pairs_insert_log [of eng cfg ts st a s c ?lo ?hi, OF sy tr] d by simp
    have P: "?P (r, s) \<longleftrightarrow> \<not> str_eq eng (py_strip (py_lower a)) r" using key se_refl by simp
    have "(r, s) \<in> set (take ?n (filter ?P (sql_distinct (row_eq eng) [] ?C))) \<longleftrightarrow>
        \<not> str_eq eng (py_strip (py_lower a)) r"
    proof
      assume "(r, s) \<in> set (take ?n (filter ?P (sql_distinct (row_eq eng) [] ?C)))"
      then have "?P (r, s)" by (rule take_filter_holds)
      then show "\<not> str_eq eng (py_strip (py_lower a)) r" using P by blast
    next
      assume "\<not> str_eq eng (py_strip (py_lower a)) r"
      then have "?P (r, s)" using P by blast
      then show "(r, s) \<in> set (take ?n (filter ?P (sql_distinct (row_eq eng) [] ?C)))"
        using mem rows take_filter_mem [of "(r, s)" ?n "sql_distinct (row_eq eng) [] ?C" ?P] by blast
    qed
    then show ?thesis using after by blast
  qed
  have c4: "(r, s) \<notin> set rows'"
    if eq: "str_eq eng (py_strip (py_lower a)) r" and key: "c = CAMPAIGN_KEY cfg"
      and sel: "select_candidates eng cfg (insert_logs eng (insert_log eng ts st a s c) later)
              start_utc end_utc = Inr rows'" for rows'
  proof
    assume mem: "(r, s) \<in> set rows'"
    let ?st' = "insert_logs eng (insert_log eng ts st a s c) later"
    obtain l where l: "l \<in> set (wishlist_email_log (insert_log eng ts st a s c))"
      "str_eq eng (log_email l) (py_strip (py_lower a))" "log_wishlist_id l = s"
      "log_campaign_key l = c" using c1 by blast
    have "str_eq eng (log_email l) r" using l(2) eq se_trans by blast
    then have "log_matches eng (wishlist_email_log (insert_log eng ts st a s c)) r s (CAMPAIGN_KEY cfg)"
      using l key se_refl by (auto simp: log_matches_def list_ex_iff)
    then have m: "log_matches eng (wishlist_email_log ?st') r s (CAMPAIGN_KEY cfg)"
      using insert_logs_matches [of eng "insert_log eng ts st a s c" r s "CAMPAIGN_KEY cfg" later,
          OF sy tr] by blast
    have "(r, s) \<in> set (candidate_pairs eng cfg ?st' (strftime_seconds start_utc)
        (strftime_seconds end_utc))"
      using select_candidates_subset [OF sel] mem by blast
    then have "\<not> log_matches eng (wishlist_email_log ?st') r s (CAMPAIGN_KEY cfg)"
      using candidate_pairs_mem by blast
    then show False using m by blast
  qed
  have C3: "\<forall>rows. select_candidates eng cfg st start_utc end_utc = Inr rows \<and> (r, s) \<in> set rows \<and>
            c = CAMPAIGN_KEY cfg \<longrightarrow>
      (\<exists>rows'. select_candidates eng cfg (insert_log eng ts st a s c) start_utc end_utc = Inr rows' \<and>
         ((r, s) \<in> set rows' \<longleftrightarrow> \<not> str_eq eng (py_strip (py_lower a)) r))"
    using c3 by blast
  have C4: "\<forall>rows'. str_eq eng (py_strip (py_lower a)) r \<and> c = CAMPAIGN_KEY cfg \<and>
            select_candidates eng cfg (insert_logs eng (insert_log eng ts st a s c) later)
              start_utc end_utc = Inr rows' \<longrightarrow>
      (r, s) \<notin> set rows'"
    using c4 by blast
  have n: "py_strip (py_lower (py_lower (py_strip r))) = py_strip (py_lower r)"
    using normalise_once [of r] by blast
  have c5: "insert_log eng ts st (py_lower (py_strip r)) s c = insert_log eng ts st r s c"
    by (simp only: insert_log_def n)
  show ?thesis
    using c1 c2 n1 n2 n3 n4 n5 n6 n7 n8 n9 C3 C4 c5 by (intro conjI)
qed

text \<open>
  Ana's address passed with a no-break space and a space in front, capitals, and a
  space, a tab and a line feed behind is logged as \<open>ana@example.com\<close>, and so is the
  address as the guest row holds it; after either write the query still returns her
  pair, while Bea's, stored in normal form, is excluded.
\<close>

theorem sent_record_email_normalization_witness:
  "py_strip (py_lower (CHR 0xA0 # '' Ana@Example.COM'' @ [CHR 0x20, CHR 0x09, CHR 0x0A])) =
     ''ana@example.com'' \<and>
   wishlist_email_log
     (insert_log engine_ci (instant 20000 18 0 1 0) store_sample
        (CHR 0xA0 # '' Ana@Example.COM'' @ [CHR 0x20, CHR 0x09, CHR 0x0A]) 7
        ''wishlist_v1_24h'') =
     [\<lparr>log_email = ''ana@example.com'', log_wishlist_id = 7,
       log_campaign_key = ''wishlist_v1_24h'', log_sent_at = instant 20000 18 0 1 0\<rparr>] \<and>
   (\<exists>rows'. select_candidates engine_ci cfg_24h
       (insert_log engine_ci (instant 20000 18 0 1 0) store_sample
          (CHR 0xA0 # '' Ana@Example.COM'' @ [CHR 0x20, CHR 0x09, CHR 0x0A]) 7
          ''wishlist_v1_24h'') start_sample end_sample = Inr rows' \<and>
      ('' Ana@Example.com'', 7) \<in> set rows') \<and>
   wishlist_email_log
     (insert_log engine_ci (instant 20000 18 0 1 0) store_sample '' Ana@Example.com'' 7
        ''wishlist_v1_24h'') =
     [\<lparr>log_email = ''ana@example.com'', log_wishlist_id = 7,
       log_campaign_key = ''wishlist_v1_24h'', log_sent_at = instant 20000 18 0 1 0\<rparr>] \<and>
   (\<exists>rows'. select_candidates engine_ci cfg_24h
       (insert_log engine_ci (instant 20000 18 0 1 0) store_sample '' Ana@Example.com'' 7
          ''wishlist_v1_24h'') start_sample end_sample = Inr rows' \<and>
      ('' Ana@Example.com'', 7) \<in> set rows') \<and>
   (\<exists>rows'. select_candidates engine_ci cfg_24h
       (insert_log engine_ci (instant 20000 18 0 1 0) store_sample ''bea@example.com'' 8
          ''wishlist_v1_24h'') start_sample end_sample = Inr rows' \<and>
      (''bea@example.com'', 8) \<notin> set rows') \<and>
   hd ''ana@example.com'' \<notin> set py_whitespace \<and>
   last ''ana@example.com'' \<notin> set py_whitespace"
proof -
  let ?p = "CHR 0xA0 # '' Ana@Example.COM'' @ [CHR 0x20, CHR 0x09, CHR 0x0A]"
  have k: "''wishlist_v1_24h'' = CAMPAIGN_KEY cfg_24h" by (simp add: cfg_24h_def)
  have m: "('' Ana@Example.com'', 7) \<in> set rows_sample \<and> (''bea@example.com'', 8) \<in> set rows_sample"
    by (simp add: rows_sample_def)
  have na: "py_strip (py_lower '' Ana@Example.com'') = ''ana@example.com''" by code_simp
  have np: "py_strip (py_lower ?p) = ''ana@example.com''" by code_simp
  have n: "\<not> log_matches engine_ci (wishlist_email_log store_sample)
       ''ana@example.com'' 7 ''wishlist_v1_24h''" by code_simp
  have e1: "\<not> str_eq engine_ci ''ana@example.com'' '' Ana@Example.com''"
    by code_simp
  have e2: "str_eq engine_ci (py_strip (py_lower ''bea@example.com'')) ''bea@example.com''"
    by code_simp
  have l0: "wishlist_email_log store_sample = []" by (simp add: store_sample_def)
  have ne: "''ana@example.com'' \<noteq> []" by simp
  note A = sent_record_email_normalization [OF equivp_engine_ci, of "instant 20000 18 0 1 0"
      store_sample "'' Ana@Example.com''" 7 "''wishlist_v1_24h''" cfg_24h start_sample end_sample
      "'' Ana@Example.com''" "[]", unfolded na]
  note B = sent_record_email_normalization [OF equivp_engine_ci, of "instant 20000 18 0 1 0"
      store_sample "''bea@example.com''" 8 "''wishlist_v1_24h''" cfg_24h start_sample end_sample
      "''bea@example.com''" "[]"]
  note C = sent_record_email_normalization [OF equivp_engine_ci, of "instant 20000 18 0 1 0"
      store_sample ?p 7 "''wishlist_v1_24h''" cfg_24h start_sample end_sample
      "'' Ana@Example.com''" "[]", unfolded np]
  have c0: "wishlist_email_log
     (insert_log engine_ci (instant 20000 18 0 1 0) store_sample ?p 7 ''wishlist_v1_24h'') =
     [\<lparr>log_email = ''ana@example.com'', log_wishlist_id = 7,
       log_campaign_key = ''wishlist_v1_24h'', log_sent_at = instant 20000 18 0 1 0\<rparr>]"
    using C n l0 by simp
  have c0': "\<exists>rows'. select_candidates engine_ci cfg_24h
       (insert_log engine_ci (instant 20000 18 0 1 0) store_sample ?p 7
          ''wishlist_v1_24h'') start_sample end_sample = Inr rows' \<and>
      ('' Ana@Example.com'', 7) \<in> set rows'"
    using C select_sample m k e1 by blast
  have c1: "wishlist_email_log
     (insert_log engine_ci (instant 20000 18 0 1 0) store_sample '' Ana@Example.com'' 7
        ''wishlist_v1_24h'') =
     [\<lparr>log_email = ''ana@example.com'', log_wishlist_id = 7,
       log_campaign_key = ''wishlist_v1_24h'', log_sent_at = instant 20000 18 0 1 0\<rparr>]"
    using A n l0 by simp
  have c2: "\<exists>rows'. select_candidates engine_ci cfg_24h
       (insert_log engine_ci (instant 20000 18 0 1 0) store_sample '' Ana@Example.com'' 7
          ''wishlist_v1_24h'') start_sample end_sample = Inr rows' \<and>
      ('' Ana@Example.com'', 7) \<in> set rows'"
    using A select_sample m k e1 by blast
  have c3: "\<exists>rows'. select_candidates engine_ci cfg_24h
       (insert_log engine_ci (instant 20000 18 0 1 0) store_sample ''bea@example.com'' 8
          ''wishlist_v1_24h'') start_sample end_sample = Inr rows' \<and>
      (''bea@example.com'', 8) \<notin> set rows'"
    using B select_sample m k e2 by blast
  have c4: "hd ''ana@example.com'' \<notin> set py_whitespace"
    and c5: "last ''ana@example.com'' \<notin> set py_whitespace"
    using C ne by blast+
  show ?thesis using np c0 c0' c1 c2 c3 c4 c5 by (intro conjI)
qed


text \<open>
  C1, on a concrete store. The guest row of wishlist 7 holds the address with a leading
  space and capitals. After \<open>insert_log\<close> for it the log row reads
  \<open>ana@example.com\<close>, and the query with the same campaign key still returns the pair,
  even on a store that ignores case and trailing spaces. A live run of the worker sends
  to Ana and Bea and logs both; a second run selects Ana again and sends to her again.
\<close>

theorem sent_record_misses_raw_email:
  "wishlist_guest_emails store_sample = [guest_ana, guest_bea, guest_cy] \<and>
   ge_email guest_ana = '' Ana@Example.com'' \<and> ge_wishlist_id guest_ana = 7 \<and>
   wishlist_email_log
     (insert_log engine_ci (instant 20000 18 0 1 0) store_sample '' Ana@Example.com'' 7
        ''wishlist_v1_24h'') =
     [\<lparr>log_email = ''ana@example.com'', log_wishlist_id = 7,
       log_campaign_key = ''wishlist_v1_24h'', log_sent_at = instant 20000 18 0 1 0\<rparr>] \<and>
   select_candidates engine_ci cfg_24h
     (insert_log engine_ci (instant 20000 18 0 1 0) store_sample '' Ana@Example.com'' 7
        ''wishlist_v1_24h'') start_sample end_sample =
     Inr [('' Ana@Example.com'', 7), (''bea@example.com'', 8)] \<and>
   fst (worker_main engine_ci cfg_24h env_ok state_sample) = 0 \<and>
   smtp_calls (snd (worker_main engine_ci cfg_24h env_ok state_sample)) =
     [(''ana@example.com'', ''Tu reloj favorito te espera'', ''<html>{{PRODUCTS}}</html>''),
      (''bea@example.com'', ''Tu reloj favorito te espera'', ''<html>{{PRODUCTS}}</html>'')] \<and>
   select_candidates engine_ci cfg_24h (db (snd (worker_main engine_ci cfg_24h env_ok state_sample)))
     start_sample end_sample = Inr [('' Ana@Example.com'', 7)] \<and>
   smtp_calls (snd (worker_main engine_ci cfg_24h env_ok
       (snd (worker_main engine_ci cfg_24h env_ok state_sample)))) =
     [(''ana@example.com'', ''Tu reloj favorito te espera'', ''<html>{{PRODUCTS}}</html>''),
      (''bea@example.com'', ''Tu reloj favorito te espera'', ''<html>{{PRODUCTS}}</html>''),
      (''ana@example.com'', ''Tu reloj favorito te espera'', ''<html>{{PRODUCTS}}</html>'')] \<and>
   select_candidates engine_binary cfg_24h
     (db (snd (worker_main engine_binary cfg_24h env_ok state_sample)))
     start_sample end_sample = Inr [('' Ana@Example.com'', 7)]"
  by code_simp


subsection \<open>The send loop\<close>

lemma send_loop_preview:
  "\<not> SEND_EMAILS cfg \<Longrightarrow>
   db (snd (send_loop eng cfg env tpl rows s)) = db s \<and>
   smtp_calls (snd (send_loop eng cfg env tpl rows s)) = smtp_calls s"
proof (induction rows arbitrary: s)
  case Nil
  then show ?case by simp
next
  case (Cons r rows)
  show ?case
  proof (cases "render_template env (snd r) tpl")
    case (Inl e)
    then show ?thesis by simp
  next
    case (Inr html)
    then show ?thesis using Cons.prems Cons.IH [OF Cons.prems] by (simp add: Let_def)
  qed
qed









text \<open>
  C9. With \<open>SEND_EMAILS\<close> off, for every candidate list the loop makes no call to
  \<open>send_email\<close> and leaves the store as it was, and so does the whole run of the worker:
  the sent log is unchanged.
\<close>

theorem preview_is_write_free:
  assumes "\<not> SEND_EMAILS cfg"
  shows
  "db (snd (send_loop eng cfg env tpl rows s)) = db s \<and>
   smtp_calls (snd (send_loop eng cfg env tpl rows s)) = smtp_calls s \<and>
   db (snd (worker_main eng cfg env s)) = db s \<and>
   wishlist_email_log (db (snd (worker_main eng cfg env s))) = wishlist_email_log (db s) \<and>
   smtp_calls (snd (worker_main eng cfg env s)) = smtp_calls s"
proof -
  have l: "db (snd (send_loop eng cfg env tpl rows s)) = db s \<and>
   smtp_calls (snd (send_loop eng cfg env tpl rows s)) = smtp_calls s" for tpl rows
    using send_loop_preview [OF assms] .
  have m: "db (snd (worker_main eng cfg env s)) = db s \<and>
      smtp_calls (snd (worker_main eng cfg env s)) = smtp_calls s"
  proof -
    have l': "db s' = db s \<and> smtp_calls s' = smtp_calls s"
      if "send_loop eng cfg env tpl rows s = (x, s')" for tpl rows x s'
      using l [of tpl rows] that by simp
    show ?thesis
      unfolding worker_main_def
      by (auto split: sum.splits option.splits prod.splits dest: l')
  qed
  show ?thesis using l m by simp
qed

theorem preview_is_write_free_witness:
  "db (snd (worker_main engine_ci cfg_24h_preview env_ok state_sample)) = store_sample \<and>
   smtp_calls (snd (worker_main engine_ci cfg_24h_preview env_ok state_sample)) = [] \<and>
   printed (snd (worker_main engine_ci cfg_24h_preview env_ok state_sample)) =
     [PREVIEW ''ana@example.com'' 7, PREVIEW ''bea@example.com'' 8]"
proof -
  have p: "\<not> SEND_EMAILS cfg_24h_preview" by (simp add: cfg_24h_preview_def)
  have e: "printed (snd (worker_main engine_ci cfg_24h_preview env_ok state_sample)) =
     [PREVIEW ''ana@example.com'' 7, PREVIEW ''bea@example.com'' 8]" by code_simp
  show ?thesis
    using preview_is_write_free [OF p, of engine_ci env_ok template_sample rows_sample state_sample] e
    by (simp add: state_sample_def)
qed


end
